theory Spec2Isabelle
  imports Main "HOL-Library.Sublist" "HOL-Library.Word"
begin

section \<open>LocalFiles MCP server: a shallow embedding of app.py\<close>

text \<open>
  The server has three tools (\<open>lf_list_files\<close>, \<open>lf_read_file\<close>, \<open>lf_get_config\<close>) over
  three helpers (\<open>load_config\<close>, \<open>is_file_allowed\<close>, \<open>is_path_allowed\<close>). The helpers and
  tools are translated function by function. What they call in the Python library
  (\<open>str\<close> methods, \<open>int\<close>, \<open>pathlib\<close>, \<open>base64\<close>, the UTF-8 codec) is modelled first; what
  they ask of the operating system is an explicit parameter, the record \<open>os\<close>.

  Conventions: a Python \<open>str\<close> of configuration and path text is a \<open>string\<close>, one
  \<open>char\<close> per code point (code points below 256); file contents are lists of bytes
  (\<open>8 word\<close>); decoded file text is a list of code points (\<open>nat\<close>); Python's unbounded
  \<open>int\<close> is \<open>int\<close>. Paths follow the POSIX flavour of pathlib (CPython 3.8 to 3.12).
\<close>

subsection \<open>Python string methods\<close>

definition py_isspace :: "char \<Rightarrow> bool" where
  \<comment> \<open>\<open>str.isspace\<close> on one character: TAB..CR, FS..US, SPACE, NEL, NBSP.\<close>
  "py_isspace c =
     (let n = (of_char c :: nat)
      in (9 \<le> n \<and> n \<le> 13) \<or> (28 \<le> n \<and> n \<le> 32) \<or> n = 133 \<or> n = 160)"

definition py_strip_where :: "(char \<Rightarrow> bool) \<Rightarrow> string \<Rightarrow> string" where
  "py_strip_where P s = rev (dropWhile P (rev (dropWhile P s)))"

definition py_strip :: "string \<Rightarrow> string" where
  \<comment> \<open>\<open>s.strip()\<close>\<close>
  "py_strip s = py_strip_where py_isspace s"

definition py_strip_chars :: "string \<Rightarrow> string \<Rightarrow> string" where
  \<comment> \<open>\<open>s.strip(chars)\<close>\<close>
  "py_strip_chars chars s = py_strip_where (\<lambda>c. c \<in> set chars) s"

fun py_split :: "char \<Rightarrow> string \<Rightarrow> string list" where
  \<comment> \<open>\<open>s.split(sep)\<close> for a one-character separator: never an empty list.\<close>
  "py_split sep [] = [[]]"
| "py_split sep (c # cs) =
     (if c = sep then [] # py_split sep cs
      else (case py_split sep cs of
              [] \<Rightarrow> [[c]]
            | w # ws \<Rightarrow> (c # w) # ws))"

definition py_split_once :: "char \<Rightarrow> string \<Rightarrow> string \<times> string" where
  \<comment> \<open>\<open>s.split(sep, 1)\<close>, used only where \<open>sep in s\<close>.\<close>
  "py_split_once sep s = (takeWhile (\<lambda>c. c \<noteq> sep) s, tl (dropWhile (\<lambda>c. c \<noteq> sep) s))"

definition py_startswith :: "string \<Rightarrow> string \<Rightarrow> bool" where
  "py_startswith s p = (take (length p) s = p)"

definition py_lower_char :: "char \<Rightarrow> char" where
  \<comment> \<open>\<open>str.lower\<close> on one character below 256: A..Z and the Latin-1 capitals.\<close>
  "py_lower_char c =
     (let n = (of_char c :: nat)
      in if (65 \<le> n \<and> n \<le> 90) \<or> (192 \<le> n \<and> n \<le> 222 \<and> n \<noteq> 215)
         then char_of (n + 32) else c)"

definition py_lower :: "string \<Rightarrow> string" where
  "py_lower s = map py_lower_char s"

definition py_isdigit :: "char \<Rightarrow> bool" where
  "py_isdigit c = (let n = (of_char c :: nat) in 48 \<le> n \<and> n \<le> 57)"

fun digits_value :: "int \<Rightarrow> string \<Rightarrow> int option" where
  \<comment> \<open>Decimal digits, single underscores allowed between two digits.\<close>
  "digits_value acc [] = Some acc"
| "digits_value acc [c] =
     (if py_isdigit c then Some (acc * 10 + (int (of_char c) - 48)) else None)"
| "digits_value acc (c # d # cs) =
     (if py_isdigit c then
        (if d = CHR ''_'' then
           (if cs = [] then None else digits_value (acc * 10 + (int (of_char c) - 48)) cs)
         else digits_value (acc * 10 + (int (of_char c) - 48)) (d # cs))
      else None)"

definition int_isspace :: "char \<Rightarrow> bool" where
  \<comment> \<open>The whitespace \<open>int\<close> skips around a number: TAB..CR and SPACE, and NEL and NBSP,
      which it first turns into spaces. FS..US, which \<open>str.strip\<close> removes, are not
      among them.\<close>
  "int_isspace c =
     (let n = (of_char c :: nat)
      in (9 \<le> n \<and> n \<le> 13) \<or> n = 32 \<or> n = 133 \<or> n = 160)"

definition py_int :: "string \<Rightarrow> int option" where
  \<comment> \<open>\<open>int(s)\<close> in base 10; \<open>None\<close> is \<open>ValueError\<close>. Surrounding whitespace and one sign
      are accepted. The interpreter's limit on the number of digits is not modelled.\<close>
  "py_int s =
     (case py_strip_where int_isspace s of
        [] \<Rightarrow> None
      | c # cs \<Rightarrow>
          if c = CHR ''-'' then
            (if cs = [] then None else map_option uminus (digits_value 0 cs))
          else if c = CHR ''+'' then
            (if cs = [] then None else digits_value 0 cs)
          else digits_value 0 (c # cs))"

subsection \<open>pathlib: pure paths\<close>

text \<open>
  A \<open>PurePosixPath\<close> is its root (\<open>''''\<close>, \<open>''/''\<close> or \<open>''//''\<close>) and its segments. The
  constructor drops empty segments and \<open>''.''\<close> and keeps \<open>''..''\<close>.
\<close>

datatype ppath = PPath (root: string) (segs: "string list")

definition Path :: "string \<Rightarrow> ppath" where
  "Path s =
     (let lead = length (takeWhile (\<lambda>c. c = CHR ''/'') s);
          rt = (if lead = 0 then '''' else if lead = 2 then ''//'' else ''/'')
      in PPath rt (filter (\<lambda>x. x \<noteq> '''' \<and> x \<noteq> ''.'') (py_split CHR ''/'' (drop lead s))))"

fun py_join :: "string \<Rightarrow> string list \<Rightarrow> string" where
  \<comment> \<open>\<open>sep.join(xs)\<close>\<close>
  "py_join sep [] = ''''"
| "py_join sep [x] = x"
| "py_join sep (x # y # ys) = x @ sep @ py_join sep (y # ys)"

definition path_str :: "ppath \<Rightarrow> string" where
  "path_str p = (if root p = '''' \<and> segs p = [] then ''.'' else root p @ py_join ''/'' (segs p))"

definition path_name :: "ppath \<Rightarrow> string" where
  "path_name p = (if segs p = [] then '''' else last (segs p))"

definition py_rfind :: "char \<Rightarrow> string \<Rightarrow> nat option" where
  \<comment> \<open>\<open>s.rfind(c)\<close>; \<open>None\<close> is -1.\<close>
  "py_rfind c s =
     (if c \<in> set s then Some (length s - 1 - length (takeWhile (\<lambda>x. x \<noteq> c) (rev s)))
      else None)"

definition path_suffix :: "ppath \<Rightarrow> string" where
  \<comment> \<open>\<open>Path.suffix\<close>: with \<open>i = name.rfind('.')\<close>, \<open>name[i:]\<close> if \<open>0 < i < len(name) - 1\<close>, else empty.\<close>
  "path_suffix p =
     (case py_rfind CHR ''.'' (path_name p) of
        None \<Rightarrow> ''''
      | Some i \<Rightarrow> if 0 < i \<and> i + 1 < length (path_name p) then drop i (path_name p) else '''')"

definition is_absolute :: "ppath \<Rightarrow> bool" where
  "is_absolute p = (root p \<noteq> '''')"

definition child :: "ppath \<Rightarrow> string list \<Rightarrow> ppath" where
  \<comment> \<open>The path of a descendant found by a directory walk: the walked path extended.\<close>
  "child p rel = PPath (root p) (segs p @ rel)"

definition relative_to :: "ppath \<Rightarrow> ppath \<Rightarrow> ppath option" where
  \<comment> \<open>\<open>p.relative_to(other)\<close>; \<open>None\<close> is \<open>ValueError\<close>. A test on whole segments.\<close>
  "relative_to p other =
     (if root p = root other \<and> prefix (segs other) (segs p)
      then Some (PPath '''' (drop (length (segs other)) (segs p)))
      else None)"

subsection \<open>Codecs: UTF-8, universal newlines, base64\<close>

type_synonym byte = "8 word"

definition is_cont :: "byte \<Rightarrow> bool" where
  "is_cont b = (128 \<le> unat b \<and> unat b \<le> 191)"

definition cont_bits :: "byte \<Rightarrow> nat" where
  "cont_bits b = unat b - 128"

fun utf8_decode :: "byte list \<Rightarrow> nat list option" where
  \<comment> \<open>The strict decoder of \<open>open(..., encoding='utf-8')\<close>: shortest forms only, no
      surrogates, nothing above U+10FFFF. \<open>None\<close> is \<open>UnicodeDecodeError\<close>.\<close>
  "utf8_decode [] = Some []"
| "utf8_decode (b # bs) =
     (let n = unat b in
      if n < 128 then map_option ((#) n) (utf8_decode bs)
      else if 194 \<le> n \<and> n \<le> 223 then
        (case bs of
           c1 # r \<Rightarrow>
             if is_cont c1
             then map_option ((#) ((n - 192) * 64 + cont_bits c1)) (utf8_decode r)
             else None
         | _ \<Rightarrow> None)
      else if 224 \<le> n \<and> n \<le> 239 then
        (case bs of
           c1 # c2 # r \<Rightarrow>
             if is_cont c1 \<and> is_cont c2 \<and> (n \<noteq> 224 \<or> 160 \<le> unat c1) \<and>
                (n \<noteq> 237 \<or> unat c1 \<le> 159)
             then map_option ((#) ((n - 224) * 4096 + cont_bits c1 * 64 + cont_bits c2))
                    (utf8_decode r)
             else None
         | _ \<Rightarrow> None)
      else if 240 \<le> n \<and> n \<le> 244 then
        (case bs of
           c1 # c2 # c3 # r \<Rightarrow>
             if is_cont c1 \<and> is_cont c2 \<and> is_cont c3 \<and> (n \<noteq> 240 \<or> 144 \<le> unat c1) \<and>
                (n \<noteq> 244 \<or> unat c1 \<le> 143)
             then map_option
                    ((#) ((n - 240) * 262144 + cont_bits c1 * 4096 + cont_bits c2 * 64 +
                          cont_bits c3))
                    (utf8_decode r)
             else None
         | _ \<Rightarrow> None)
      else None)"

fun universal_newlines :: "nat list \<Rightarrow> nat list" where
  \<comment> \<open>Text mode with the default \<open>newline=None\<close>: on reading, CR LF and a lone CR
      become LF.\<close>
  "universal_newlines [] = []"
| "universal_newlines [c] = [if c = 13 then 10 else c]"
| "universal_newlines (c # d # cs) =
     (if c = 13 \<and> d = 10 then 10 # universal_newlines cs
      else if c = 13 then 10 # universal_newlines (d # cs)
      else c # universal_newlines (d # cs))"

definition b64_alphabet :: string where
  "b64_alphabet = ''ABCDEFGHIJKLMNOPQRSTUVWXYZabcdefghijklmnopqrstuvwxyz0123456789+/''"

definition b64_char :: "nat \<Rightarrow> char" where
  "b64_char i = b64_alphabet ! (i mod 64)"

fun b64encode :: "byte list \<Rightarrow> string" where
  \<comment> \<open>\<open>base64.b64encode\<close>: three bytes to four characters of six bits each, padded
      with \<open>=\<close>.\<close>
  "b64encode [] = []"
| "b64encode [a] =
     [b64_char (unat a div 4), b64_char (unat a mod 4 * 16), CHR ''='', CHR ''='']"
| "b64encode [a, b] =
     [b64_char (unat a div 4), b64_char (unat a mod 4 * 16 + unat b div 16),
      b64_char (unat b mod 16 * 4), CHR ''='']"
| "b64encode (a # b # c # r) =
     b64_char (unat a div 4) # b64_char (unat a mod 4 * 16 + unat b div 16) #
     b64_char (unat b mod 16 * 4 + unat c div 64) # b64_char (unat c mod 64) #
     b64encode r"

definition ascii_decode :: "string \<Rightarrow> nat list" where
  \<comment> \<open>\<open>bytes.decode('ascii')\<close> on the output of \<open>b64encode\<close>: the code points.\<close>
  "ascii_decode s = map of_char s"

fun index_of :: "char \<Rightarrow> string \<Rightarrow> nat option" where
  "index_of c [] = None"
| "index_of c (x # xs) = (if x = c then Some 0 else map_option Suc (index_of c xs))"

definition b64_index :: "char \<Rightarrow> nat option" where
  "b64_index c = index_of c b64_alphabet"

fun b64decode :: "string \<Rightarrow> byte list option" where
  \<comment> \<open>Base64 decoding (RFC 4648, strict): what a reader of the tool's result applies to
      a \<open>binary_base64\<close> content. It is not part of app.py.\<close>
  "b64decode [] = Some []"
| "b64decode (a # b # c # d # r) =
     (case (b64_index a, b64_index b) of
        (Some x, Some y) \<Rightarrow>
          if c = CHR ''='' \<and> d = CHR ''='' \<and> r = [] then Some [of_nat (x * 4 + y div 16)]
          else
            (case b64_index c of
               None \<Rightarrow> None
             | Some z \<Rightarrow>
                 if d = CHR ''='' \<and> r = [] then
                   Some [of_nat (x * 4 + y div 16), of_nat (y mod 16 * 16 + z div 4)]
                 else
                   (case b64_index d of
                      None \<Rightarrow> None
                    | Some w \<Rightarrow>
                        map_option
                          (\<lambda>bs. of_nat (x * 4 + y div 16) #
                                of_nat (y mod 16 * 16 + z div 4) #
                                of_nat (z mod 4 * 64 + w) # bs)
                          (b64decode r)))
      | _ \<Rightarrow> None)"
| "b64decode _ = None"

definition b64decode_str :: "nat list \<Rightarrow> byte list option" where
  \<comment> \<open>Decoding a \<open>str\<close> content: its characters, then \<open>b64decode\<close>.\<close>
  "b64decode_str content = b64decode (map char_of content)"

subsection \<open>The operating system\<close>

datatype ftype = Regular | Directory | Special

record stat_result =
  st_type :: ftype
  st_size :: nat
  st_mtime :: int

text \<open>
  \<open>os.stat\<close> has three outcomes: a result, an error that \<open>Path.exists\<close>, \<open>is_dir\<close> and
  \<open>is_file\<close> take for "no such file" (ENOENT, ENOTDIR, ELOOP), and any other
  \<open>OSError\<close> (such as EACCES), which those three re-raise. Both errors carry the message
  of the exception. The timestamp is a value the program only passes on. A path with a NUL
  character names no file: \<open>exists\<close>, \<open>is_dir\<close> and \<open>is_file\<close> answer \<open>False\<close> for it, and
  the tools ask for the \<open>stat\<close> of a path only after one of them has answered \<open>True\<close>.
\<close>

datatype stat_outcome = Stat stat_result | Missing string | StatError string

datatype exn = ValueError string | OSError string | RuntimeError string

fun exn_str :: "exn \<Rightarrow> string" where
  \<comment> \<open>\<open>str(e)\<close>\<close>
  "exn_str (ValueError m) = m"
| "exn_str (OSError m) = m"
| "exn_str (RuntimeError m) = m"

record os =
  getenv :: "string \<Rightarrow> string option"
  resolve :: "ppath \<Rightarrow> exn + ppath"
  stat :: "ppath \<Rightarrow> stat_outcome"
  rglob :: "ppath \<Rightarrow> string list list \<times> string option"
  read_lines :: "ppath \<Rightarrow> string + string list"
  read_bytes :: "ppath \<Rightarrow> string + byte list"

text \<open>
  \<open>getenv\<close> is \<open>os.getenv\<close>. \<open>resolve\<close> is \<open>Path.resolve()\<close>: the platform's canonical
  absolute path, or the exception it raises (\<open>ValueError\<close> for a path with a NUL
  character, \<open>RuntimeError\<close> for a loop of symbolic links). \<open>rglob p\<close> is what iterating
  \<open>p.rglob('*')\<close> does: the descendants it yields, each as its segments below \<open>p\<close>, and the message of the exception that ends
  the iteration, if one does. \<open>read_lines\<close> is iterating a file opened in text mode;
  \<open>read_bytes\<close> is the content of a file opened for reading; \<open>Inl\<close> carries the message
  of the \<open>OSError\<close>.
\<close>

definition path_exists :: "os \<Rightarrow> ppath \<Rightarrow> exn + bool" where
  "path_exists sys p =
     (case stat sys p of
        Stat st \<Rightarrow> Inr True
      | Missing m \<Rightarrow> Inr False
      | StatError m \<Rightarrow> Inl (OSError m))"

definition path_is_dir :: "os \<Rightarrow> ppath \<Rightarrow> exn + bool" where
  "path_is_dir sys p =
     (case stat sys p of
        Stat st \<Rightarrow> Inr (st_type st = Directory)
      | Missing m \<Rightarrow> Inr False
      | StatError m \<Rightarrow> Inl (OSError m))"

definition path_is_file :: "os \<Rightarrow> ppath \<Rightarrow> exn + bool" where
  "path_is_file sys p =
     (case stat sys p of
        Stat st \<Rightarrow> Inr (st_type st = Regular)
      | Missing m \<Rightarrow> Inr False
      | StatError m \<Rightarrow> Inl (OSError m))"

subsection \<open>load_config\<close>

record config =
  allowed_directories :: "string list"
  max_file_size :: int
  allowed_extensions :: "string list"

definition default_config :: config where
  "default_config =
     \<lparr>allowed_directories = [],
      max_file_size = 10 * 1024 * 1024,
      allowed_extensions =
        [''.txt'', ''.md'', ''.py'', ''.js'', ''.json'', ''.yaml'', ''.yml'', ''.csv'', ''.xml'',
         ''.html'', ''.css'']\<rparr>"

definition split_list :: "string \<Rightarrow> string list" where
  \<comment> \<open>\<open>[d.strip() for d in v.split(',') if d.strip()]\<close>\<close>
  "split_list v = filter (\<lambda>d. d \<noteq> []) (map py_strip (py_split (CHR '','') v))"

definition apply_line :: "config \<Rightarrow> string \<Rightarrow> exn + config" where
  \<comment> \<open>The body of \<open>for line in f\<close>.\<close>
  "apply_line cfg raw =
     (let line = py_strip raw in
      if line \<noteq> [] \<and> \<not> py_startswith line ''#'' then
        if CHR ''='' \<in> set line then
          (let (k, v) = py_split_once (CHR ''='') line;
               k = py_strip k;
               v = py_strip_chars [CHR 0x22, CHR 0x27] (py_strip v)
           in if k = ''ALLOWED_DIRECTORIES'' then
                Inr (cfg\<lparr>allowed_directories := split_list v\<rparr>)
              else if k = ''MAX_FILE_SIZE'' then
                (case py_int v of
                   None \<Rightarrow> Inl (ValueError v)
                 | Some n \<Rightarrow> Inr (cfg\<lparr>max_file_size := n\<rparr>))
              else if k = ''ALLOWED_EXTENSIONS'' then
                Inr (cfg\<lparr>allowed_extensions := split_list v\<rparr>)
              else Inr cfg)
        else Inr cfg
      else Inr cfg)"

fun apply_lines :: "config \<Rightarrow> string list \<Rightarrow> exn + config" where
  "apply_lines cfg [] = Inr cfg"
| "apply_lines cfg (l # ls) =
     (case apply_line cfg l of
        Inl e \<Rightarrow> Inl e
      | Inr cfg' \<Rightarrow> apply_lines cfg' ls)"

definition truthy :: "string option \<Rightarrow> bool" where
  \<comment> \<open>\<open>if os.getenv(k):\<close> holds for a variable that is set and not empty.\<close>
  "truthy v = (case v of None \<Rightarrow> False | Some s \<Rightarrow> s \<noteq> [])"

definition env_override :: "os \<Rightarrow> config \<Rightarrow> exn + config" where
  \<comment> \<open>The three \<open>if os.getenv(...)\<close> statements, in order.\<close>
  "env_override sys cfg =
     (let c1 = (if truthy (getenv sys ''ALLOWED_DIRECTORIES'')
                then cfg\<lparr>allowed_directories :=
                          split_list (the (getenv sys ''ALLOWED_DIRECTORIES''))\<rparr>
                else cfg)
      in case (if truthy (getenv sys ''MAX_FILE_SIZE'')
               then (case py_int (the (getenv sys ''MAX_FILE_SIZE'')) of
                       None \<Rightarrow> Inl (ValueError (the (getenv sys ''MAX_FILE_SIZE'')))
                     | Some n \<Rightarrow> Inr (c1\<lparr>max_file_size := n\<rparr>))
               else Inr c1) of
           Inl e \<Rightarrow> Inl e
         | Inr c2 \<Rightarrow>
             Inr (if truthy (getenv sys ''ALLOWED_EXTENSIONS'')
                  then c2\<lparr>allowed_extensions :=
                            split_list (the (getenv sys ''ALLOWED_EXTENSIONS''))\<rparr>
                  else c2))"

definition load_config :: "os \<Rightarrow> exn + config" where
  \<comment> \<open>\<open>Inl\<close> is the exception that leaves \<open>load_config\<close>: the \<open>ValueError\<close> of \<open>int\<close>, or
      an \<open>OSError\<close> from the settings file.\<close>
  "load_config sys =
     (case path_exists sys (Path ''.env'') of
        Inl e \<Rightarrow> Inl e
      | Inr present \<Rightarrow>
          (case (if present
                 then (case read_lines sys (Path ''.env'') of
                         Inl m \<Rightarrow> Inl (OSError m)
                       | Inr ls \<Rightarrow> apply_lines default_config ls)
                 else Inr default_config) of
             Inl e \<Rightarrow> Inl e
           | Inr cfg \<Rightarrow> env_override sys cfg))"

subsection \<open>is_file_allowed and is_path_allowed\<close>

definition is_file_allowed :: "os \<Rightarrow> ppath \<Rightarrow> config \<Rightarrow> bool" where
  "is_file_allowed sys file_path cfg =
     (case stat sys file_path of
        Stat st \<Rightarrow>
          if int (st_size st) > max_file_size cfg then False
          else if allowed_extensions cfg \<noteq> [] \<and>
                  py_lower (path_suffix file_path) \<notin> set (allowed_extensions cfg) then False
          else True
      | Missing m \<Rightarrow> False
      | StatError m \<Rightarrow> False)"

fun allowed_loop :: "os \<Rightarrow> ppath \<Rightarrow> string list \<Rightarrow> exn + bool" where
  \<comment> \<open>The \<open>for allowed_dir in config['allowed_directories']\<close> loop; \<open>Inl\<close> is an
      exception of \<open>resolve\<close>, which nothing catches.\<close>
  "allowed_loop sys file_path [] = Inr False"
| "allowed_loop sys file_path (allowed_dir # rest) =
     (case resolve sys (Path allowed_dir) of
        Inl e \<Rightarrow> Inl e
      | Inr allowed_path \<Rightarrow>
          (case relative_to file_path allowed_path of
             Some r \<Rightarrow> Inr True
           | None \<Rightarrow> allowed_loop sys file_path rest))"

definition is_path_allowed :: "os \<Rightarrow> string \<Rightarrow> config \<Rightarrow> exn + bool" where
  "is_path_allowed sys file_path cfg =
     (case resolve sys (Path file_path) of
        Inl e \<Rightarrow> Inl e
      | Inr resolved \<Rightarrow> allowed_loop sys resolved (allowed_directories cfg))"

subsection \<open>lf_list_files\<close>

record file_entry =
  e_name :: string
  e_path :: string
  e_relative_path :: string
  e_size :: nat
  e_modified :: int
  e_extension :: string

datatype dir_info =
    DirError string string
  | DirFiles string "file_entry list" nat

datatype list_result =
    ListError string
  | Listing "string list" "dir_info list" nat

text \<open>
  The dictionaries of the result: \<open>DirError directory error\<close>,
  \<open>DirFiles directory files total_files\<close>, \<open>ListError error\<close> and
  \<open>Listing allowed_directories directories total_directories\<close>.
\<close>

fun collect :: "os \<Rightarrow> config \<Rightarrow> ppath \<Rightarrow> string list list \<Rightarrow> file_entry list \<Rightarrow>
    exn + file_entry list" where
  \<comment> \<open>The \<open>for file_path in path.rglob('*')\<close> loop over what the walk yields; \<open>Inl\<close> is
      an exception that leaves the loop.\<close>
  "collect sys cfg path [] dir_files = Inr dir_files"
| "collect sys cfg path (rel # rest) dir_files =
     (let file_path = child path rel in
      case path_is_file sys file_path of
        Inl e \<Rightarrow> Inl e
      | Inr regular \<Rightarrow>
          if regular \<and> is_file_allowed sys file_path cfg then
            (case stat sys file_path of
               Stat st \<Rightarrow>
                 (case relative_to file_path path of
                    None \<Rightarrow> Inl (ValueError (path_str file_path))
                  | Some r \<Rightarrow>
                      collect sys cfg path rest
                        (dir_files @
                         [\<lparr>e_name = path_name file_path,
                           e_path = path_str file_path,
                           e_relative_path = path_str r,
                           e_size = st_size st,
                           e_modified = st_mtime st,
                           e_extension = path_suffix file_path\<rparr>]))
             | Missing m \<Rightarrow> collect sys cfg path rest dir_files
             | StatError m \<Rightarrow> collect sys cfg path rest dir_files)
          else collect sys cfg path rest dir_files)"

definition scan_directory :: "os \<Rightarrow> config \<Rightarrow> string \<Rightarrow> dir_info" where
  \<comment> \<open>The body of \<open>for dir_path in directories_to_scan\<close>, with its \<open>except Exception\<close>.\<close>
  "scan_directory sys cfg dir_path =
     (let path = Path dir_path in
      case path_exists sys path of
        Inl e \<Rightarrow> DirError dir_path (exn_str e)
      | Inr present \<Rightarrow>
          if \<not> present then DirError dir_path ''Directory does not exist''
          else
            (case path_is_dir sys path of
               Inl e \<Rightarrow> DirError dir_path (exn_str e)
             | Inr isdir \<Rightarrow>
                 if \<not> isdir then DirError dir_path ''Path is not a directory''
                 else
                   (case collect sys cfg path (fst (rglob sys path)) [] of
                      Inl e \<Rightarrow> DirError dir_path (exn_str e)
                    | Inr dir_files \<Rightarrow>
                        (case snd (rglob sys path) of
                           Some m \<Rightarrow> DirError dir_path m
                         | None \<Rightarrow> DirFiles dir_path dir_files (length dir_files)))))"

definition no_directories_msg :: string where
  "no_directories_msg =
     ''No allowed directories configured. Please set ALLOWED_DIRECTORIES in .env file.''"

definition quoted :: "string \<Rightarrow> string" where
  \<comment> \<open>\<open>'{s}'\<close> inside an f-string.\<close>
  "quoted s = [CHR 0x27] @ s @ [CHR 0x27]"

definition scan_all :: "os \<Rightarrow> config \<Rightarrow> string list \<Rightarrow> list_result" where
  \<comment> \<open>The loop \<open>for dir_path in directories_to_scan\<close> and the final \<open>return\<close>.\<close>
  "scan_all sys cfg directories_to_scan =
     (let files_info = map (scan_directory sys cfg) directories_to_scan
      in Listing (allowed_directories cfg) files_info (length files_info))"

definition lf_list_files :: "os \<Rightarrow> string \<Rightarrow> exn + list_result" where
  \<comment> \<open>\<open>Inl\<close> is an exception that leaves the tool.\<close>
  "lf_list_files sys directory_path =
     (case load_config sys of
        Inl e \<Rightarrow> Inl e
      | Inr cfg \<Rightarrow>
          if allowed_directories cfg = [] then Inr (ListError no_directories_msg)
          else if directory_path \<noteq> [] then
            (case is_path_allowed sys directory_path cfg of
               Inl e \<Rightarrow> Inl e
             | Inr allowed \<Rightarrow>
                 if \<not> allowed then
                   Inr (ListError (''Directory '' @ quoted directory_path @
                                   '' is not in allowed directories.''))
                 else Inr (scan_all sys cfg [directory_path]))
          else Inr (scan_all sys cfg (allowed_directories cfg)))"

definition list_files_default :: "os \<Rightarrow> exn + list_result" where
  \<comment> \<open>A call that omits the argument: \<open>directory_path: str = ""\<close>.\<close>
  "list_files_default sys = lf_list_files sys []"

subsection \<open>lf_read_file\<close>

record file_content =
  r_file_path :: string
  r_name :: string
  r_size :: nat
  r_modified :: int
  r_extension :: string
  r_content_type :: string
  r_content :: "nat list"

datatype read_result = ReadError string | ReadOk file_content

definition read_content :: "byte list \<Rightarrow> string \<times> nat list" where
  \<comment> \<open>The inner \<open>try\<close>: text first, base64 of the bytes on \<open>UnicodeDecodeError\<close>.\<close>
  "read_content bs =
     (case utf8_decode bs of
        Some cps \<Rightarrow> (''text'', universal_newlines cps)
      | None \<Rightarrow> (''binary_base64'', ascii_decode (b64encode bs)))"

definition read_checked :: "os \<Rightarrow> config \<Rightarrow> ppath \<Rightarrow> exn + read_result" where
  \<comment> \<open>The body of the outer \<open>try\<close>; \<open>Inl\<close> is the exception its \<open>except\<close> catches.\<close>
  "read_checked sys cfg path =
     (case path_exists sys path of
        Inl e \<Rightarrow> Inl e
      | Inr present \<Rightarrow>
          if \<not> present then Inr (ReadError ''File does not exist.'')
          else
            (case path_is_file sys path of
               Inl e \<Rightarrow> Inl e
             | Inr regular \<Rightarrow>
                 if \<not> regular then Inr (ReadError ''Path is not a file.'')
                 else if \<not> is_file_allowed sys path cfg then
                   Inr (ReadError ''File is not allowed (size or extension restrictions).'')
                 else
                   (case read_bytes sys path of
                      Inl m \<Rightarrow> Inl (OSError m)
                    | Inr bs \<Rightarrow>
                        (case stat sys path of
                           Stat st \<Rightarrow>
                             Inr (ReadOk
                               \<lparr>r_file_path = path_str path,
                                r_name = path_name path,
                                r_size = st_size st,
                                r_modified = st_mtime st,
                                r_extension = path_suffix path,
                                r_content_type = fst (read_content bs),
                                r_content = snd (read_content bs)\<rparr>)
                         | Missing m \<Rightarrow> Inl (OSError m)
                         | StatError m \<Rightarrow> Inl (OSError m)))))"

definition lf_read_file :: "os \<Rightarrow> string \<Rightarrow> exn + read_result" where
  \<comment> \<open>\<open>Inl\<close> is an exception that leaves the tool: \<open>load_config\<close> and \<open>is_path_allowed\<close>
      are called before the \<open>try\<close>.\<close>
  "lf_read_file sys file_path =
     (case load_config sys of
        Inl e \<Rightarrow> Inl e
      | Inr cfg \<Rightarrow>
          if allowed_directories cfg = [] then Inr (ReadError no_directories_msg)
          else
            (case is_path_allowed sys file_path cfg of
               Inl e \<Rightarrow> Inl e
             | Inr allowed \<Rightarrow>
                 if \<not> allowed then
                   Inr (ReadError (''File '' @ quoted file_path @
                                   '' is not in allowed directories.''))
                 else
                   (case read_checked sys cfg (Path file_path) of
                      Inl e \<Rightarrow> Inr (ReadError (''Error reading file: '' @ exn_str e))
                    | Inr r \<Rightarrow> Inr r)))"

subsection \<open>lf_get_config\<close>

record config_summary =
  s_allowed_directories :: "string list"
  s_max_file_size :: int
  s_allowed_extensions :: "string list"
  s_status :: string

definition lf_get_config :: "os \<Rightarrow> exn + config_summary" where
  "lf_get_config sys =
     (case load_config sys of
        Inl e \<Rightarrow> Inl e
      | Inr cfg \<Rightarrow>
          Inr \<lparr>s_allowed_directories = allowed_directories cfg,
               s_max_file_size = max_file_size cfg,
               s_allowed_extensions = allowed_extensions cfg,
               s_status =
                 (if allowed_directories cfg \<noteq> [] then ''configured''
                  else ''not_configured'')\<rparr>)"

subsection \<open>A POSIX file system as an instance of the operating system\<close>

text \<open>
  A tree of directories, regular files (content and modification time) and symbolic
  links (the target as written), a working directory given by its canonical segments, and
  an environment. It has no permissions, so \<open>stat\<close> never gives \<open>StatError\<close>. A system
  call follows links up to a bound, as the kernel does.
\<close>

datatype node = File "byte list" int | Dir "(string \<times> node) list" | Symlink string

record filesys =
  fs_tree :: node
  fs_cwd :: "string list"
  fs_environ :: "(string \<times> string) list"

fun lookup :: "node \<Rightarrow> string list \<Rightarrow> node option" where
  \<comment> \<open>The node at canonical segments; no link is followed.\<close>
  "lookup n [] = Some n"
| "lookup n (s # ss) =
     (case n of
        Dir es \<Rightarrow> (case map_of es s of Some m \<Rightarrow> lookup m ss | None \<Rightarrow> None)
      | _ \<Rightarrow> None)"

datatype located = Found "string list" | NoEntry | TooManyLinks

fun locate :: "nat \<Rightarrow> node \<Rightarrow> string list \<Rightarrow> string list \<Rightarrow> located" where
  \<comment> \<open>Path resolution of a system call, from the canonical directory \<open>acc\<close>: every
      component but the last must lead to a directory (\<open>NoEntry\<close> is ENOENT or ENOTDIR),
      and at most \<open>fuel\<close> links are followed (\<open>TooManyLinks\<close> is ELOOP).\<close>
  "locate fuel t acc [] = Found acc"
| "locate fuel t acc (s # rest) =
     (case lookup t acc of
        Some (Dir es) \<Rightarrow>
          if s = ''..'' then locate fuel t (butlast acc) rest
          else
            (case map_of es s of
               None \<Rightarrow> NoEntry
             | Some (Symlink target) \<Rightarrow>
                 (case fuel of
                    0 \<Rightarrow> TooManyLinks
                  | Suc k \<Rightarrow>
                      locate k t (if root (Path target) = [] then acc else [])
                        (segs (Path target) @ rest))
             | Some other \<Rightarrow> locate fuel t (acc @ [s]) rest)
      | _ \<Rightarrow> NoEntry)"

fun link_paths :: "node \<Rightarrow> string list list"
  and link_paths_entries :: "(string \<times> node) list \<Rightarrow> string list list" where
  \<comment> \<open>Where the symbolic links of a tree are.\<close>
  "link_paths (Symlink target) = [[]]"
| "link_paths (File bs t) = []"
| "link_paths (Dir es) = link_paths_entries es"
| "link_paths_entries [] = []"
| "link_paths_entries (e # es) = map ((#) (fst e)) (link_paths (snd e)) @ link_paths_entries es"

fun lexical :: "string list \<Rightarrow> string list \<Rightarrow> string list" where
  \<comment> \<open>\<open>os.path.normpath\<close> of a canonical path joined with what is left to resolve.\<close>
  "lexical acc [] = acc"
| "lexical acc (s # rest) =
     (if s = ''..'' then lexical (butlast acc) rest else lexical (acc @ [s]) rest)"

lemma lookup_link_paths:
  "lookup n p = Some (Symlink target) \<Longrightarrow> p \<in> set (link_paths n)"
proof (induction p arbitrary: n)
  case Nil
  then show ?case by simp
next
  case (Cons s ss)
  from Cons.prems obtain es m where n: "n = Dir es" and m: "map_of es s = Some m"
    and l: "lookup m ss = Some (Symlink target)"
    by (auto split: node.splits option.splits)
  from Cons.IH [OF l] have ss: "ss \<in> set (link_paths m)" .
  have "map_of es' s = Some m \<Longrightarrow> s # ss \<in> set (link_paths_entries es')" for es'
  proof (induction es')
    case Nil
    then show ?case by simp
  next
    case (Cons e es')
    then show ?case using ss by (cases e) (auto split: if_splits)
  qed
  with n m show ?case by simp
qed

function realpath :: "node \<Rightarrow> string list list \<Rightarrow> string list \<Rightarrow> string list \<Rightarrow>
    string list \<times> bool" where
  \<comment> \<open>\<open>os.path.realpath\<close>, not strict, from the canonical path \<open>acc\<close>: a component that
      does not exist is kept as written; \<open>seen\<close> holds the links whose target is being
      resolved. Meeting one of them again is a loop: the result is then the path as far
      as it was resolved with the rest joined to it, and \<open>False\<close>.\<close>
  "realpath t seen acc [] = (acc, True)"
| "realpath t seen acc (s # rest) =
     (if s = ''..'' then realpath t seen (butlast acc) rest
      else
        (case lookup t (acc @ [s]) of
           Some (Symlink target) \<Rightarrow>
             if acc @ [s] \<in> set seen then (lexical (acc @ [s]) rest, False)
             else
               (case realpath t ((acc @ [s]) # seen)
                       (if root (Path target) = [] then acc else []) (segs (Path target)) of
                  (path, ok) \<Rightarrow>
                    if ok then realpath t seen path rest else (lexical path rest, False))
         | _ \<Rightarrow> realpath t seen (acc @ [s]) rest))"
  by pat_completeness auto

termination
proof (relation "inv_image (less_than <*lex*> less_than)
    (\<lambda>(t, seen, acc, ss). (card (set (link_paths t) - set seen), length ss))")
  have "card (set (link_paths t) - insert p (set seen)) < card (set (link_paths t) - set seen)"
    if "lookup t p = Some (Symlink target)" and "p \<notin> set seen"
    for t p target and seen :: "string list list"
  proof -
    from that have "p \<in> set (link_paths t) - set seen"
      by (simp add: lookup_link_paths)
    then show ?thesis
      by (intro psubset_card_mono) auto
  qed
  then show "\<And>t seen acc s rest x2 x3.
       s \<noteq> ''..'' \<Longrightarrow> lookup t (acc @ [s]) = Some x2 \<Longrightarrow> x2 = Symlink x3 \<Longrightarrow>
       acc @ [s] \<notin> set seen \<Longrightarrow>
       ((t, (acc @ [s]) # seen, if root (Path x3) = [] then acc else [], segs (Path x3)),
        t, seen, acc, s # rest)
       \<in> inv_image (less_than <*lex*> less_than)
            (\<lambda>(t, seen, acc, ss). (card (set (link_paths t) - set seen), length ss))"
    by simp
qed (auto intro: wf_inv_image wf_lex_prod wf_less_than)

fun walk :: "node \<Rightarrow> string list list"
  and walk_entries :: "(string \<times> node) list \<Rightarrow> string list list" where
  \<comment> \<open>The descendants of a directory in the order of \<open>rglob('*')\<close>: the entries of a
      directory, then those of each subdirectory. A link is listed, never entered.\<close>
  "walk (Dir es) = map (\<lambda>e. [fst e]) es @ walk_entries es"
| "walk (File bs t) = []"
| "walk (Symlink target) = []"
| "walk_entries [] = []"
| "walk_entries (e # es) = map ((#) (fst e)) (walk (snd e)) @ walk_entries es"

fun text_lines :: "string \<Rightarrow> string list" where
  \<comment> \<open>The lines that iterating a file opened in text mode yields, each with its
      newline: CR LF and a lone CR end a line too and are read as LF.\<close>
  "text_lines [] = []"
| "text_lines [c] = [[if c = CHR 0x0D then CHR 0x0A else c]]"
| "text_lines (c # d # cs) =
     (if c = CHR 0x0D \<and> d = CHR 0x0A then [CHR 0x0A] # text_lines cs
      else if c = CHR 0x0D \<or> c = CHR 0x0A then [CHR 0x0A] # text_lines (d # cs)
      else (case text_lines (d # cs) of
              [] \<Rightarrow> [[c]]
            | l # ls \<Rightarrow> (c # l) # ls))"

definition link_bound :: nat where
  "link_bound = 40"

definition start_dir :: "filesys \<Rightarrow> ppath \<Rightarrow> string list" where
  "start_dir fs p = (if root p = [] then fs_cwd fs else [])"

definition fs_node :: "filesys \<Rightarrow> ppath \<Rightarrow> node option" where
  \<comment> \<open>What a path leads to, links followed.\<close>
  "fs_node fs p =
     (case locate link_bound (fs_tree fs) (start_dir fs p) (segs p) of
        Found c \<Rightarrow> lookup (fs_tree fs) c
      | _ \<Rightarrow> None)"

definition enoent :: string where
  "enoent = ''[Errno 2] No such file or directory''"

definition fs_stat :: "filesys \<Rightarrow> ppath \<Rightarrow> stat_outcome" where
  "fs_stat fs p =
     (case fs_node fs p of
        Some (File bs t) \<Rightarrow> Stat \<lparr>st_type = Regular, st_size = length bs, st_mtime = t\<rparr>
      | Some (Dir es) \<Rightarrow> Stat \<lparr>st_type = Directory, st_size = 4096, st_mtime = 0\<rparr>
      | _ \<Rightarrow> Missing enoent)"

definition has_nul :: "ppath \<Rightarrow> bool" where
  "has_nul p = (\<exists>s\<in>set (segs p). CHR 0x00 \<in> set s)"

definition fs_resolve :: "filesys \<Rightarrow> ppath \<Rightarrow> exn + ppath" where
  \<comment> \<open>\<open>Path.resolve()\<close>: the \<open>lstat\<close> of a component with a NUL character raises
      \<open>ValueError\<close>; the result of \<open>realpath\<close> is absolute with the root \<open>/\<close>; a \<open>stat\<close>
      of it that fails with ELOOP becomes \<open>RuntimeError\<close>.\<close>
  "fs_resolve fs p =
     (if has_nul p then Inl (ValueError ''embedded null byte'')
      else
        (let s = PPath ''/'' (fst (realpath (fs_tree fs) [] (start_dir fs p) (segs p)))
         in if locate link_bound (fs_tree fs) [] (segs s) = TooManyLinks
            then Inl (RuntimeError (''Symlink loop from '' @ quoted (path_str s)))
            else Inr s))"

definition fs_rglob :: "filesys \<Rightarrow> ppath \<Rightarrow> string list list \<times> string option" where
  "fs_rglob fs p =
     (case fs_node fs p of
        Some (Dir es) \<Rightarrow> (walk (Dir es), None)
      | _ \<Rightarrow> ([], None))"

definition fs_read_bytes :: "filesys \<Rightarrow> ppath \<Rightarrow> string + byte list" where
  "fs_read_bytes fs p =
     (case fs_node fs p of
        Some (File bs t) \<Rightarrow> Inr bs
      | Some (Dir es) \<Rightarrow> Inl ''[Errno 21] Is a directory''
      | _ \<Rightarrow> Inl enoent)"

definition fs_read_lines :: "filesys \<Rightarrow> ppath \<Rightarrow> string + string list" where
  \<comment> \<open>The settings file is opened without an encoding, so the locale decides: here
      ISO 8859-1, one character per byte.\<close>
  "fs_read_lines fs p =
     (case fs_read_bytes fs p of
        Inl m \<Rightarrow> Inl m
      | Inr bs \<Rightarrow> Inr (text_lines (map (\<lambda>b. char_of (unat b)) bs)))"

definition posix :: "filesys \<Rightarrow> os" where
  "posix fs =
     \<lparr>getenv = map_of (fs_environ fs),
      resolve = fs_resolve fs,
      stat = fs_stat fs,
      rglob = fs_rglob fs,
      read_lines = fs_read_lines fs,
      read_bytes = fs_read_bytes fs\<rparr>"

definition ascii :: "string \<Rightarrow> byte list" where
  \<comment> \<open>The bytes of an ASCII text.\<close>
  "ascii s = map (\<lambda>c. of_nat (of_char c)) s"

subsection \<open>Notions of the specification\<close>

definition under :: "ppath \<Rightarrow> ppath \<Rightarrow> bool" where
  \<comment> \<open>\<open>p\<close> is \<open>d\<close> itself or a descendant of \<open>d\<close> by whole path segments.\<close>
  "under p d = (p = d \<or> (\<exists>rel. rel \<noteq> [] \<and> p = child d rel))"

definition parse_line :: "string \<Rightarrow> (string \<times> string) option" where
  \<comment> \<open>A settings line \<open>KEY=value\<close>: the key and the value without its surrounding
      quotes. \<open>None\<close> for a blank line, a \<open>#\<close> comment and a line without \<open>=\<close>.\<close>
  "parse_line raw =
     (if py_strip raw = [] \<or> py_startswith (py_strip raw) ''#'' \<or>
         CHR ''='' \<notin> set (py_strip raw)
      then None
      else Some (py_strip (takeWhile (\<lambda>c. c \<noteq> CHR ''='') (py_strip raw)),
                 py_strip_chars [CHR 0x22, CHR 0x27]
                   (py_strip (tl (dropWhile (\<lambda>c. c \<noteq> CHR ''='') (py_strip raw))))))"

definition file_values :: "string list \<Rightarrow> string \<Rightarrow> string list" where
  \<comment> \<open>The values the settings file gives to a key, in the order of its lines.\<close>
  "file_values ls k = map snd (filter (\<lambda>kv. fst kv = k) (List.map_filter parse_line ls))"

definition layered :: "'a \<Rightarrow> 'a list \<Rightarrow> 'a option \<Rightarrow> 'a" where
  \<comment> \<open>Later overrides earlier: the default, the settings of the file, the environment.\<close>
  "layered dflt from_file from_env =
     (case from_env of
        Some v \<Rightarrow> v
      | None \<Rightarrow> if from_file = [] then dflt else last from_file)"

definition to_int :: "string \<Rightarrow> int" where
  "to_int v = (case py_int v of Some n \<Rightarrow> n | None \<Rightarrow> 0)"

definition layered_config :: "(string \<Rightarrow> string option) \<Rightarrow> string list \<Rightarrow> exn + config" where
  \<comment> \<open>The configuration as the specification layers it, from the lines of the settings
      file (none when there is no file) and the environment variables that count as
      overriding. A value of \<open>MAX_FILE_SIZE\<close> that is not an integer is an error.\<close>
  "layered_config env ls =
     (case find (\<lambda>v. py_int v = None)
             (file_values ls ''MAX_FILE_SIZE'' @
              (case env ''MAX_FILE_SIZE'' of None \<Rightarrow> [] | Some v \<Rightarrow> [v])) of
        Some bad \<Rightarrow> Inl (ValueError bad)
      | None \<Rightarrow>
          Inr \<lparr>allowed_directories =
                 layered [] (map split_list (file_values ls ''ALLOWED_DIRECTORIES''))
                   (map_option split_list (env ''ALLOWED_DIRECTORIES'')),
               max_file_size =
                 layered 10485760 (map to_int (file_values ls ''MAX_FILE_SIZE''))
                   (map_option to_int (env ''MAX_FILE_SIZE'')),
               allowed_extensions =
                 layered
                   [''.txt'', ''.md'', ''.py'', ''.js'', ''.json'', ''.yaml'', ''.yml'', ''.csv'',
                    ''.xml'', ''.html'', ''.css'']
                   (map split_list (file_values ls ''ALLOWED_EXTENSIONS''))
                   (map_option split_list (env ''ALLOWED_EXTENSIONS''))\<rparr>)"

definition env_nonempty :: "os \<Rightarrow> string \<Rightarrow> string option" where
  \<comment> \<open>The environment variables that are set to a value that is not empty.\<close>
  "env_nonempty sys k =
     (case getenv sys k of
        None \<Rightarrow> None
      | Some v \<Rightarrow> if v = [] then None else Some v)"

subsection \<open>Example file systems\<close>

definition demo_tree :: node where
  "demo_tree = Dir
     [(''allowed'',
         Dir [(''notes.txt'', File (ascii ''hello'') 100),
              (''crlf.txt'', File (ascii [CHR ''a'', CHR 0x0D, CHR 0x0A, CHR ''b'']) 101),
              (''blob.txt'', File [0xFF, 0x00, 0x61] 102),
              (''Photo.JPG'', File [0xFF, 0xD8] 103),
              (''link.txt'', Symlink ''/secret.txt''),
              (''sub'', Dir [(''deep.md'', File (ascii ''# d'') 104)])]),
      (''allowed2'', Dir [(''other.txt'', File (ascii ''x'') 105)]),
      (''secret.txt'', File (ascii ''s3cret'') 106),
      (''home'', Dir [(''u'', Dir [(''data'', Dir [(''a.txt'', File (ascii ''A'') 107)])])]),
      (''srv'',
         Dir [(''.env'',
               File (ascii (''# settings'' @ [CHR 0x0A] @
                            ''ALLOWED_DIRECTORIES = '' @ [CHR 0x22] @ ''/allowed, /allowed2 ,'' @
                            [CHR 0x22, CHR 0x0A] @
                            ''MAX_FILE_SIZE=1000'' @ [CHR 0x0A, CHR 0x0A] @
                            ''ALLOWED_EXTENSIONS='' @ [CHR 0x27] @ ''.txt,.md'' @
                            [CHR 0x27, CHR 0x0A])) 108)])]"

definition demo_fs :: filesys where
  \<comment> \<open>No settings file in the working directory; one allowed directory.\<close>
  "demo_fs =
     \<lparr>fs_tree = demo_tree, fs_cwd = [''home'', ''u''],
      fs_environ = [(''ALLOWED_DIRECTORIES'', ''/allowed'')]\<rparr>"

definition demo_cfg :: config where
  "demo_cfg = default_config\<lparr>allowed_directories := [''/allowed'']\<rparr>"

definition demo_entries :: "file_entry list" where
  \<comment> \<open>What the listing of \<open>/allowed\<close> in \<open>demo_fs\<close> holds.\<close>
  "demo_entries =
     [\<lparr>e_name = ''notes.txt'', e_path = ''/allowed/notes.txt'',
       e_relative_path = ''notes.txt'', e_size = 5, e_modified = 100,
       e_extension = ''.txt''\<rparr>,
      \<lparr>e_name = ''crlf.txt'', e_path = ''/allowed/crlf.txt'',
       e_relative_path = ''crlf.txt'', e_size = 4, e_modified = 101,
       e_extension = ''.txt''\<rparr>,
      \<lparr>e_name = ''blob.txt'', e_path = ''/allowed/blob.txt'',
       e_relative_path = ''blob.txt'', e_size = 3, e_modified = 102,
       e_extension = ''.txt''\<rparr>,
      \<lparr>e_name = ''link.txt'', e_path = ''/allowed/link.txt'',
       e_relative_path = ''link.txt'', e_size = 6, e_modified = 106,
       e_extension = ''.txt''\<rparr>,
      \<lparr>e_name = ''deep.md'', e_path = ''/allowed/sub/deep.md'',
       e_relative_path = ''sub/deep.md'', e_size = 3, e_modified = 104,
       e_extension = ''.md''\<rparr>]"

definition loop_fs :: filesys where
  \<comment> \<open>The first allowed directory is a symbolic link to itself.\<close>
  "loop_fs =
     \<lparr>fs_tree =
        Dir [(''loop'', Symlink ''loop''),
             (''allowed'', Dir [(''notes.txt'', File (ascii ''hello'') 100)])],
      fs_cwd = [],
      fs_environ = [(''ALLOWED_DIRECTORIES'', ''/loop,/allowed'')]\<rparr>"

definition loop_cfg :: config where
  "loop_cfg = default_config\<lparr>allowed_directories := [''/loop'', ''/allowed'']\<rparr>"

definition mixed_fs :: filesys where
  \<comment> \<open>A relative allowed directory and one that does not exist.\<close>
  "mixed_fs =
     \<lparr>fs_tree = demo_tree, fs_cwd = [''home'', ''u''],
      fs_environ = [(''ALLOWED_DIRECTORIES'', ''data,/nonexistent'')]\<rparr>"

definition mixed_cfg :: config where
  "mixed_cfg = default_config\<lparr>allowed_directories := [''data'', ''/nonexistent'']\<rparr>"

definition env_fs :: filesys where
  \<comment> \<open>A settings file in the working directory; two variables set in the environment,
      one of them to the empty string.\<close>
  "env_fs =
     \<lparr>fs_tree = demo_tree, fs_cwd = [''srv''],
      fs_environ = [(''ALLOWED_DIRECTORIES'', ''''), (''ALLOWED_EXTENSIONS'', ''.csv'')]\<rparr>"

definition env_cfg :: config where
  \<comment> \<open>What \<open>load_config\<close> gives on \<open>env_fs\<close>.\<close>
  "env_cfg =
     \<lparr>allowed_directories = [''/allowed'', ''/allowed2''], max_file_size = 1000,
      allowed_extensions = [''.csv'']\<rparr>"

definition env_lines :: "string list" where
  \<comment> \<open>The lines of the settings file of \<open>env_fs\<close>.\<close>
  "env_lines =
     [''# settings'' @ [CHR 0x0A],
      ''ALLOWED_DIRECTORIES = '' @ [CHR 0x22] @ ''/allowed, /allowed2 ,'' @ [CHR 0x22, CHR 0x0A],
      ''MAX_FILE_SIZE=1000'' @ [CHR 0x0A],
      [CHR 0x0A],
      ''ALLOWED_EXTENSIONS='' @ [CHR 0x27] @ ''.txt,.md'' @ [CHR 0x27, CHR 0x0A]]"

section \<open>Facts about the example file systems\<close>

lemma demo_load_config: "load_config (posix demo_fs) = Inr demo_cfg"
  by code_simp

lemma demo_resolve_allowed:
  "resolve (posix demo_fs) (Path ''/allowed'') = Inr (PPath ''/'' [''allowed''])"
  by code_simp

lemma demo_resolve_deep:
  "resolve (posix demo_fs) (Path ''/allowed/sub/deep.md'') =
     Inr (PPath ''/'' [''allowed'', ''sub'', ''deep.md''])"
  by code_simp

lemma demo_resolve_other:
  "resolve (posix demo_fs) (Path ''/allowed2/other.txt'') =
     Inr (PPath ''/'' [''allowed2'', ''other.txt''])"
  by code_simp

lemma demo_resolve_escape:
  "resolve (posix demo_fs) (Path ''/allowed/../secret.txt'') =
     Inr (PPath ''/'' [''secret.txt''])"
  by code_simp

lemma demo_resolve_link:
  "resolve (posix demo_fs) (Path ''/allowed/link.txt'') = Inr (PPath ''/'' [''secret.txt''])"
  by code_simp

lemma demo_stat_notes:
  "stat (posix demo_fs) (Path ''/allowed/notes.txt'') =
     Stat \<lparr>st_type = Regular, st_size = 5, st_mtime = 100\<rparr>"
  by code_simp

lemma demo_stat_photo:
  "stat (posix demo_fs) (Path ''/allowed/Photo.JPG'') =
     Stat \<lparr>st_type = Regular, st_size = 2, st_mtime = 103\<rparr>"
  by code_simp

lemma demo_stat_gone:
  "stat (posix demo_fs) (Path ''/allowed/gone.txt'') = Missing enoent"
  by code_simp

section \<open>The path guard\<close>

lemma under_iff: "under p d \<longleftrightarrow> root p = root d \<and> prefix (segs d) (segs p)"
proof
  assume "under p d"
  then show "root p = root d \<and> prefix (segs d) (segs p)"
    by (auto simp: under_def child_def)
next
  assume h: "root p = root d \<and> prefix (segs d) (segs p)"
  then obtain rel where rel: "segs p = segs d @ rel"
    by (auto simp: prefix_def)
  show "under p d"
  proof (cases "rel = []")
    case True
    with h rel have "p = d" by (simp add: ppath.expand)
    then show ?thesis by (simp add: under_def)
  next
    case False
    from h rel have "p = child d rel" by (simp add: child_def ppath.expand)
    with False show ?thesis unfolding under_def by blast
  qed
qed

lemma relative_to_Some_iff: "(\<exists>r. relative_to p d = Some r) \<longleftrightarrow> under p d"
  by (simp add: relative_to_def under_iff)

lemma relative_to_None_iff: "relative_to p d = None \<longleftrightarrow> \<not> under p d"
  using relative_to_Some_iff [of p d] by auto

lemma allowed_loop_Cons:
  "allowed_loop sys fp (d # ds) =
     (case resolve sys (Path d) of
        Inl e \<Rightarrow> Inl e
      | Inr dp \<Rightarrow> if under fp dp then Inr True else allowed_loop sys fp ds)"
  using relative_to_Some_iff [of fp] relative_to_None_iff [of fp]
  by (auto split: sum.splits option.splits)

lemma allowed_loop_True_iff:
  "allowed_loop sys fp ds = Inr True \<longleftrightarrow>
     (\<exists>pre d dp rest. ds = pre @ d # rest \<and> resolve sys (Path d) = Inr dp \<and> under fp dp \<and>
        (\<forall>x\<in>set pre. \<exists>xp. resolve sys (Path x) = Inr xp \<and> \<not> under fp xp))"
proof (induction ds)
  case Nil
  then show ?case by simp
next
  case (Cons a ds)
  show ?case
  proof (cases "resolve sys (Path a)")
    case (Inl e)
    then show ?thesis
      by (auto simp: allowed_loop_Cons Cons_eq_append_conv simp del: allowed_loop.simps(2))
  next
    case (Inr ap)
    show ?thesis
    proof (cases "under fp ap")
      case True
      with Inr have "a # ds = [] @ a # ds \<and> resolve sys (Path a) = Inr ap \<and> under fp ap \<and>
          (\<forall>x\<in>set []. \<exists>xp. resolve sys (Path x) = Inr xp \<and> \<not> under fp xp)"
        by simp
      then have "\<exists>pre d dp rest. a # ds = pre @ d # rest \<and> resolve sys (Path d) = Inr dp \<and>
          under fp dp \<and> (\<forall>x\<in>set pre. \<exists>xp. resolve sys (Path x) = Inr xp \<and> \<not> under fp xp)"
        by blast
      with Inr True show ?thesis
        by (simp add: allowed_loop_Cons del: allowed_loop.simps(2))
    next
      case False
      have "(\<exists>pre d dp rest. a # ds = pre @ d # rest \<and> resolve sys (Path d) = Inr dp \<and>
               under fp dp \<and>
               (\<forall>x\<in>set pre. \<exists>xp. resolve sys (Path x) = Inr xp \<and> \<not> under fp xp)) \<longleftrightarrow>
            (\<exists>pre d dp rest. ds = pre @ d # rest \<and> resolve sys (Path d) = Inr dp \<and>
               under fp dp \<and>
               (\<forall>x\<in>set pre. \<exists>xp. resolve sys (Path x) = Inr xp \<and> \<not> under fp xp))"
        (is "?L \<longleftrightarrow> ?R")
      proof
        assume ?L
        then obtain pre d dp rest where eq: "a # ds = pre @ d # rest"
          and d: "resolve sys (Path d) = Inr dp" "under fp dp"
          and pre: "\<forall>x\<in>set pre. \<exists>xp. resolve sys (Path x) = Inr xp \<and> \<not> under fp xp"
          by blast
        from eq d Inr False obtain pre' where pre': "pre = a # pre'" "ds = pre' @ d # rest"
          by (cases pre) auto
        with pre have "\<forall>x\<in>set pre'. \<exists>xp. resolve sys (Path x) = Inr xp \<and> \<not> under fp xp"
          by simp
        with pre'(2) d show ?R by blast
      next
        assume ?R
        then obtain pre d dp rest where eq: "ds = pre @ d # rest"
          and d: "resolve sys (Path d) = Inr dp" "under fp dp"
          and pre: "\<forall>x\<in>set pre. \<exists>xp. resolve sys (Path x) = Inr xp \<and> \<not> under fp xp"
          by blast
        from eq have "a # ds = (a # pre) @ d # rest"
          by simp
        moreover from pre Inr False
        have "\<forall>x\<in>set (a # pre). \<exists>xp. resolve sys (Path x) = Inr xp \<and> \<not> under fp xp"
          by simp
        ultimately show ?L using d by blast
      qed
      with Inr False Cons.IH show ?thesis
        by (simp add: allowed_loop_Cons del: allowed_loop.simps(2))
    qed
  qed
qed

lemma allowed_loop_False_iff:
  "allowed_loop sys fp ds = Inr False \<longleftrightarrow>
     (\<forall>d\<in>set ds. \<exists>dp. resolve sys (Path d) = Inr dp \<and> \<not> under fp dp)"
proof (induction ds)
  case Nil
  then show ?case by simp
next
  case (Cons a ds)
  then show ?case
    by (cases "resolve sys (Path a)") (auto simp: allowed_loop_Cons simp del: allowed_loop.simps(2))
qed

lemma allowed_loop_resolved:
  "\<forall>d\<in>set ds. \<exists>dp. resolve sys (Path d) = Inr dp \<Longrightarrow>
   allowed_loop sys fp ds =
     Inr (\<exists>d\<in>set ds. \<exists>dp. resolve sys (Path d) = Inr dp \<and> under fp dp)"
proof (induction ds)
  case Nil
  then show ?case by simp
next
  case (Cons a ds)
  then show ?case
    by (cases "resolve sys (Path a)") (auto simp: allowed_loop_Cons simp del: allowed_loop.simps(2))
qed

text \<open>
  C2, as the claim states it, fails where \<open>Path.resolve()\<close> raises: no value is returned
  then. In \<open>loop_fs\<close> the allowed directories are \<open>/loop\<close>, a symbolic link to itself, and
  \<open>/allowed\<close>: the candidate \<open>/allowed/notes.txt\<close> and the directory \<open>/allowed\<close> have
  canonical forms, the one below the other, and \<open>is_path_allowed\<close> does not return true
  but raises while resolving \<open>/loop\<close>. With an empty list of allowed directories it does
  not return false for a candidate with a NUL character but raises.
\<close>

theorem is_path_allowed_raises_counterexample:
  "allowed_directories loop_cfg = [''/loop'', ''/allowed''] \<and>
   resolve (posix loop_fs) (Path ''/allowed/notes.txt'') =
     Inr (PPath ''/'' [''allowed'', ''notes.txt'']) \<and>
   resolve (posix loop_fs) (Path ''/allowed'') = Inr (PPath ''/'' [''allowed'']) \<and>
   relative_to (PPath ''/'' [''allowed'', ''notes.txt'']) (PPath ''/'' [''allowed'']) =
     Some (PPath [] [''notes.txt'']) \<and>
   is_path_allowed (posix loop_fs) ''/allowed/notes.txt'' loop_cfg =
     Inl (RuntimeError (''Symlink loop from '' @ quoted ''/loop'')) \<and>
   is_path_allowed (posix loop_fs) ''/allowed/notes.txt'' loop_cfg \<noteq> Inr True \<and>
   allowed_directories (demo_cfg\<lparr>allowed_directories := []\<rparr>) = [] \<and>
   is_path_allowed (posix demo_fs) [CHR 0x00] (demo_cfg\<lparr>allowed_directories := []\<rparr>) =
     Inl (ValueError ''embedded null byte'') \<and>
   is_path_allowed (posix demo_fs) [CHR 0x00] (demo_cfg\<lparr>allowed_directories := []\<rparr>) \<noteq>
     Inr False"
proof -
  have 1: "allowed_directories loop_cfg = [''/loop'', ''/allowed'']"
    by (simp add: loop_cfg_def)
  have 2: "resolve (posix loop_fs) (Path ''/allowed/notes.txt'') =
      Inr (PPath ''/'' [''allowed'', ''notes.txt''])"
    by code_simp
  have 3: "resolve (posix loop_fs) (Path ''/allowed'') = Inr (PPath ''/'' [''allowed''])"
    by code_simp
  have 4: "relative_to (PPath ''/'' [''allowed'', ''notes.txt'']) (PPath ''/'' [''allowed'']) =
      Some (PPath [] [''notes.txt''])"
    by code_simp
  have 5: "resolve (posix loop_fs) (Path ''/loop'') =
      Inl (RuntimeError (''Symlink loop from '' @ quoted ''/loop''))"
    by code_simp
  have 6: "is_path_allowed (posix loop_fs) ''/allowed/notes.txt'' loop_cfg =
      Inl (RuntimeError (''Symlink loop from '' @ quoted ''/loop''))"
    by (simp add: is_path_allowed_def 1 2 5)
  have 7: "resolve (posix demo_fs) (Path [CHR 0x00]) = Inl (ValueError ''embedded null byte'')"
    by code_simp
  have 8: "is_path_allowed (posix demo_fs) [CHR 0x00] (demo_cfg\<lparr>allowed_directories := []\<rparr>) =
      Inl (ValueError ''embedded null byte'')"
    by (simp add: is_path_allowed_def 7)
  from 1 2 3 4 6 8 show ?thesis
    by simp
qed

text \<open>
  C2, as the code has it. \<open>is_path_allowed\<close> returns true exactly when the candidate has a
  canonical form and some allowed directory has a canonical form that is the candidate's
  or lies above it by whole segments, every directory before the first such one having a
  canonical form too; it returns false exactly when the candidate and every allowed
  directory have canonical forms and none of these is the candidate's or lies above it.
  So whenever the candidate and the allowed directories have canonical forms, it returns
  whether the candidate's is that of some allowed directory or lies below it. Then it is
  false for an empty list of allowed directories; false for a candidate whose canonical
  form only extends the text of the last segment of the single allowed root (as
  \<open>/allowed2\<close> does for \<open>/allowed\<close>); and false for a candidate written as the root followed
  by \<open>/../x\<close> that the platform resolves to a sibling \<open>x\<close> of the root, although the
  candidate's text starts with the root's text.
\<close>

theorem is_path_allowed_containment:
  "(is_path_allowed sys p cfg = Inr True \<longleftrightarrow>
      (\<exists>fp pre d dp rest. resolve sys (Path p) = Inr fp \<and>
          allowed_directories cfg = pre @ d # rest \<and>
          resolve sys (Path d) = Inr dp \<and> under fp dp \<and>
          (\<forall>x\<in>set pre. \<exists>xp. resolve sys (Path x) = Inr xp \<and> \<not> under fp xp))) \<and>
   (is_path_allowed sys p cfg = Inr False \<longleftrightarrow>
      (\<exists>fp. resolve sys (Path p) = Inr fp \<and>
          (\<forall>d\<in>set (allowed_directories cfg).
              \<exists>dp. resolve sys (Path d) = Inr dp \<and> \<not> under fp dp))) \<and>
   (resolve sys (Path p) = Inr fp \<and>
    (\<forall>d\<in>set (allowed_directories cfg). \<exists>dp. resolve sys (Path d) = Inr dp) \<longrightarrow>
      is_path_allowed sys p cfg =
        Inr (\<exists>d\<in>set (allowed_directories cfg).
               \<exists>dp. resolve sys (Path d) = Inr dp \<and> under fp dp)) \<and>
   (allowed_directories cfg = [] \<and> resolve sys (Path p) = Inr fp \<longrightarrow>
      is_path_allowed sys p cfg = Inr False) \<and>
   (allowed_directories cfg = [d] \<and> t \<noteq> [] \<and>
    resolve sys (Path d) = Inr (PPath r (ss @ [s])) \<and>
    resolve sys (Path p) = Inr (PPath r (ss @ [s @ t] @ below)) \<longrightarrow>
      is_path_allowed sys p cfg = Inr False) \<and>
   (allowed_directories cfg = [d] \<and> x \<noteq> s \<and>
    resolve sys (Path d) = Inr (PPath r (ss @ [s])) \<and>
    resolve sys (Path (d @ ''/../'' @ x)) = Inr (PPath r (ss @ [x])) \<longrightarrow>
      is_path_allowed sys (d @ ''/../'' @ x) cfg = Inr False)"
proof -
  have A: "is_path_allowed sys p cfg = Inr True \<longleftrightarrow>
      (\<exists>fp pre d dp rest. resolve sys (Path p) = Inr fp \<and>
          allowed_directories cfg = pre @ d # rest \<and>
          resolve sys (Path d) = Inr dp \<and> under fp dp \<and>
          (\<forall>x\<in>set pre. \<exists>xp. resolve sys (Path x) = Inr xp \<and> \<not> under fp xp))"
    by (cases "resolve sys (Path p)") (simp_all add: is_path_allowed_def allowed_loop_True_iff)
  have B: "is_path_allowed sys q cfg = Inr False \<longleftrightarrow>
      (\<exists>fp. resolve sys (Path q) = Inr fp \<and>
          (\<forall>d\<in>set (allowed_directories cfg).
              \<exists>dp. resolve sys (Path d) = Inr dp \<and> \<not> under fp dp))" for q
    by (cases "resolve sys (Path q)") (simp_all add: is_path_allowed_def allowed_loop_False_iff)
  have C: "is_path_allowed sys p cfg =
        Inr (\<exists>d\<in>set (allowed_directories cfg).
               \<exists>dp. resolve sys (Path d) = Inr dp \<and> under fp dp)"
    if "resolve sys (Path p) = Inr fp"
      and "\<forall>d\<in>set (allowed_directories cfg). \<exists>dp. resolve sys (Path d) = Inr dp"
    using that by (simp add: is_path_allowed_def allowed_loop_resolved)
  have D: "is_path_allowed sys p cfg = Inr False"
    if "allowed_directories cfg = []" and "resolve sys (Path p) = Inr fp"
    using that by (simp add: B)
  have E: "is_path_allowed sys p cfg = Inr False"
    if "allowed_directories cfg = [d]" and "t \<noteq> []"
      and "resolve sys (Path d) = Inr (PPath r (ss @ [s]))"
      and "resolve sys (Path p) = Inr (PPath r (ss @ [s @ t] @ below))"
    using that by (simp add: B under_iff)
  have F: "is_path_allowed sys (d @ ''/../'' @ x) cfg = Inr False"
    if "allowed_directories cfg = [d]" and "x \<noteq> s"
      and "resolve sys (Path d) = Inr (PPath r (ss @ [s]))"
      and "resolve sys (Path (d @ ''/../'' @ x)) = Inr (PPath r (ss @ [x]))"
    using that by (simp add: B under_iff)
  from A B [of p] C D E F show ?thesis
    by blast
qed

theorem is_path_allowed_containment_witness:
  "is_path_allowed (posix demo_fs) ''/allowed/sub/deep.md'' demo_cfg = Inr True \<and>
   is_path_allowed (posix demo_fs) ''/allowed/sub/deep.md''
       (demo_cfg\<lparr>allowed_directories := []\<rparr>) = Inr False \<and>
   is_path_allowed (posix demo_fs) ''/allowed2/other.txt'' demo_cfg = Inr False \<and>
   is_path_allowed (posix demo_fs) ''/allowed/../secret.txt'' demo_cfg = Inr False"
proof -
  have dirs: "allowed_directories demo_cfg = [''/allowed'']"
    by (simp add: demo_cfg_def)
  have 1: "is_path_allowed (posix demo_fs) ''/allowed/sub/deep.md'' demo_cfg = Inr True"
    using is_path_allowed_containment
            [where sys = "posix demo_fs" and p = "''/allowed/sub/deep.md''" and cfg = demo_cfg
               and fp = "PPath ''/'' [''allowed'', ''sub'', ''deep.md'']",
             THEN conjunct2, THEN conjunct2, THEN conjunct1]
    by (simp add: dirs demo_resolve_allowed demo_resolve_deep under_iff)
  have 2: "is_path_allowed (posix demo_fs) ''/allowed/sub/deep.md''
             (demo_cfg\<lparr>allowed_directories := []\<rparr>) = Inr False"
    using is_path_allowed_containment
            [where sys = "posix demo_fs" and p = "''/allowed/sub/deep.md''"
               and cfg = "demo_cfg\<lparr>allowed_directories := []\<rparr>"
               and fp = "PPath ''/'' [''allowed'', ''sub'', ''deep.md'']",
             THEN conjunct2, THEN conjunct2, THEN conjunct2, THEN conjunct1]
    by (simp add: demo_resolve_deep)
  have 3: "is_path_allowed (posix demo_fs) ''/allowed2/other.txt'' demo_cfg = Inr False"
    using is_path_allowed_containment
            [where sys = "posix demo_fs" and p = "''/allowed2/other.txt''" and cfg = demo_cfg
               and d = "''/allowed''" and t = "''2''" and r = "''/''" and ss = "[]"
               and s = "''allowed''" and below = "[''other.txt'']",
             THEN conjunct2, THEN conjunct2, THEN conjunct2, THEN conjunct2, THEN conjunct1]
    by (simp add: dirs demo_resolve_allowed demo_resolve_other)
  have 4: "is_path_allowed (posix demo_fs) ''/allowed/../secret.txt'' demo_cfg = Inr False"
    using is_path_allowed_containment
            [where sys = "posix demo_fs" and cfg = demo_cfg and d = "''/allowed''"
               and r = "''/''" and ss = "[]" and s = "''allowed''" and x = "''secret.txt''",
             THEN conjunct2, THEN conjunct2, THEN conjunct2, THEN conjunct2, THEN conjunct2]
    by (simp add: dirs demo_resolve_allowed demo_resolve_escape)
  from 1 2 3 4 show ?thesis by simp
qed

section \<open>The file policy\<close>

lemma py_lower_char_idem: "py_lower_char (py_lower_char c) = py_lower_char c"
proof -
  have a: "of_char (char_of (n + 32) :: char) = n + 32" if "n < 224" for n :: nat
    using that by simp
  show ?thesis
    unfolding py_lower_char_def Let_def
    by (auto simp: a)
qed

lemma py_lower_idem: "py_lower (py_lower s) = py_lower s"
  by (simp add: py_lower_def py_lower_char_idem)

text \<open>
  C3. With a list of allowed extensions that is not empty, \<open>is_file_allowed\<close> is false
  when the lower-cased extension of the file is not in the list, and so also when no
  extension of the list equals the file's extension up to case. With an empty list it is
  true for every file whose size can be read and is within the limit, whatever its
  extension.
\<close>

theorem is_file_allowed_extension:
  "(allowed_extensions cfg \<noteq> [] \<and> py_lower (path_suffix f) \<notin> set (allowed_extensions cfg)
      \<longrightarrow> \<not> is_file_allowed sys f cfg) \<and>
   (allowed_extensions cfg \<noteq> [] \<and>
    (\<forall>e\<in>set (allowed_extensions cfg). py_lower e \<noteq> py_lower (path_suffix f))
      \<longrightarrow> \<not> is_file_allowed sys f cfg) \<and>
   (allowed_extensions cfg = [] \<and> stat sys f = Stat st \<and> int (st_size st) \<le> max_file_size cfg
      \<longrightarrow> is_file_allowed sys f cfg)"
proof -
  have "py_lower (path_suffix f) \<notin> set (allowed_extensions cfg)"
    if "\<forall>e\<in>set (allowed_extensions cfg). py_lower e \<noteq> py_lower (path_suffix f)"
    using that py_lower_idem [of "path_suffix f"] by metis
  then show ?thesis
    by (auto simp: is_file_allowed_def split: stat_outcome.splits)
qed

theorem is_file_allowed_extension_witness:
  "\<not> is_file_allowed (posix demo_fs) (Path ''/allowed/Photo.JPG'') demo_cfg \<and>
   is_file_allowed (posix demo_fs) (Path ''/allowed/Photo.JPG'')
     (demo_cfg\<lparr>allowed_extensions := []\<rparr>)"
proof -
  have sfx: "py_lower (path_suffix (Path ''/allowed/Photo.JPG'')) = ''.jpg''"
    by code_simp
  have 1: "\<not> is_file_allowed (posix demo_fs) (Path ''/allowed/Photo.JPG'') demo_cfg"
    using is_file_allowed_extension
            [where cfg = demo_cfg and f = "Path ''/allowed/Photo.JPG''"
               and sys = "posix demo_fs"]
    by (simp add: sfx demo_cfg_def default_config_def)
  have 2: "is_file_allowed (posix demo_fs) (Path ''/allowed/Photo.JPG'')
             (demo_cfg\<lparr>allowed_extensions := []\<rparr>)"
    using is_file_allowed_extension
            [where cfg = "demo_cfg\<lparr>allowed_extensions := []\<rparr>"
               and f = "Path ''/allowed/Photo.JPG''" and sys = "posix demo_fs"
               and st = "\<lparr>st_type = Regular, st_size = 2, st_mtime = 103\<rparr>"]
    by (simp add: demo_stat_photo demo_cfg_def default_config_def)
  from 1 2 show ?thesis by simp
qed

text \<open>
  C4. \<open>is_file_allowed\<close> is false when the size of the file cannot be read (\<open>stat\<close> gives
  no result) and when the size is above \<open>max_file_size\<close>, for every file name and every
  list of extensions.
\<close>

theorem is_file_allowed_fails_closed:
  "((\<forall>st. stat sys f \<noteq> Stat st) \<longrightarrow> \<not> is_file_allowed sys f cfg) \<and>
   (stat sys f = Stat st \<and> int (st_size st) > max_file_size cfg
      \<longrightarrow> \<not> is_file_allowed sys f cfg)"
  by (auto simp: is_file_allowed_def split: stat_outcome.splits)

theorem is_file_allowed_fails_closed_witness:
  "\<not> is_file_allowed (posix demo_fs) (Path ''/allowed/gone.txt'') demo_cfg \<and>
   \<not> is_file_allowed (posix demo_fs) (Path ''/allowed/notes.txt'')
       (demo_cfg\<lparr>max_file_size := 4\<rparr>)"
proof -
  have 1: "\<not> is_file_allowed (posix demo_fs) (Path ''/allowed/gone.txt'') demo_cfg"
    using is_file_allowed_fails_closed
            [where sys = "posix demo_fs" and f = "Path ''/allowed/gone.txt''"
               and cfg = demo_cfg]
    by (simp add: demo_stat_gone)
  have 2: "\<not> is_file_allowed (posix demo_fs) (Path ''/allowed/notes.txt'')
             (demo_cfg\<lparr>max_file_size := 4\<rparr>)"
    using is_file_allowed_fails_closed
            [where sys = "posix demo_fs" and f = "Path ''/allowed/notes.txt''"
               and st = "\<lparr>st_type = Regular, st_size = 5, st_mtime = 100\<rparr>"
               and cfg = "demo_cfg\<lparr>max_file_size := 4\<rparr>"]
    by (simp add: demo_stat_notes)
  from 1 2 show ?thesis by simp
qed

section \<open>Listing\<close>

lemma relative_to_child: "relative_to (child p rel) p = Some (PPath [] rel)"
  by (simp add: relative_to_def child_def)


lemma scan_missing:
  "stat sys (Path d) = Missing m \<Longrightarrow>
   scan_directory sys cfg d = DirError d ''Directory does not exist''"
  by (simp add: scan_directory_def path_exists_def Let_def)


lemma list_all_dirs:
  "load_config sys = Inr cfg \<Longrightarrow> allowed_directories cfg \<noteq> [] \<Longrightarrow>
   lf_list_files sys [] =
     Inr (Listing (allowed_directories cfg)
            (map (scan_directory sys cfg) (allowed_directories cfg))
            (length (allowed_directories cfg)))"
  by (simp add: lf_list_files_def scan_all_def Let_def)


lemma mixed_load_config: "load_config (posix mixed_fs) = Inr mixed_cfg"
  by code_simp




lemma mixed_stat_nonexistent:
  "stat (posix mixed_fs) (Path ''/nonexistent'') = Missing enoent"
  by code_simp

lemma mixed_scan_data:
  "scan_directory (posix mixed_fs) mixed_cfg ''data'' =
     DirFiles ''data''
       [\<lparr>e_name = ''a.txt'', e_path = ''data/a.txt'', e_relative_path = ''a.txt'',
         e_size = 1, e_modified = 107, e_extension = ''.txt''\<rparr>] 1"
  by code_simp


lemma path_exists_resolve [simp]: "path_exists (sys\<lparr>resolve := f\<rparr>) p = path_exists sys p"
  by (simp add: path_exists_def)

lemma path_is_dir_resolve [simp]: "path_is_dir (sys\<lparr>resolve := f\<rparr>) p = path_is_dir sys p"
  by (simp add: path_is_dir_def)

lemma path_is_file_resolve [simp]: "path_is_file (sys\<lparr>resolve := f\<rparr>) p = path_is_file sys p"
  by (simp add: path_is_file_def)

lemma is_file_allowed_resolve [simp]:
  "is_file_allowed (sys\<lparr>resolve := f\<rparr>) p cfg = is_file_allowed sys p cfg"
  by (simp add: is_file_allowed_def)

lemma env_override_resolve [simp]:
  "env_override (sys\<lparr>resolve := f\<rparr>) cfg = env_override sys cfg"
  by (simp add: env_override_def cong: sum.case_cong if_cong option.case_cong)

lemma load_config_resolve [simp]: "load_config (sys\<lparr>resolve := f\<rparr>) = load_config sys"
  by (simp add: load_config_def cong: sum.case_cong if_cong)

lemma collect_resolve [simp]:
  "collect (sys\<lparr>resolve := f\<rparr>) cfg path rels acc = collect sys cfg path rels acc"
  by (induction rels arbitrary: acc)
     (simp_all add: Let_def cong: sum.case_cong if_cong stat_outcome.case_cong option.case_cong)

lemma scan_directory_resolve [simp]:
  "scan_directory (sys\<lparr>resolve := f\<rparr>) cfg d = scan_directory sys cfg d"
  by (simp add: scan_directory_def Let_def cong: sum.case_cong if_cong)

lemma scan_directory_resolve_fun [simp]:
  "scan_directory (sys\<lparr>resolve := f\<rparr>) cfg = scan_directory sys cfg"
  by (rule ext) simp

text \<open>
  C9. A call with the empty string is the call that omits the argument. Its result is
  never the rejection of the empty string as a path outside the allowed directories, and
  it does not depend on how the platform resolves paths, which only the path guard asks:
  the guard is not consulted. When the configuration loads with allowed directories, all
  of them are scanned.
\<close>

theorem list_files_empty_string:
  "lf_list_files sys [] = list_files_default sys \<and>
   lf_list_files sys [] \<noteq>
     Inr (ListError (''Directory '' @ quoted [] @ '' is not in allowed directories.'')) \<and>
   lf_list_files (sys\<lparr>resolve := other\<rparr>) [] = lf_list_files sys [] \<and>
   (load_config sys = Inr cfg \<and> allowed_directories cfg \<noteq> [] \<longrightarrow>
      lf_list_files sys [] =
        Inr (Listing (allowed_directories cfg)
               (map (scan_directory sys cfg) (allowed_directories cfg))
               (length (allowed_directories cfg))))"
proof -
  have msg: "no_directories_msg \<noteq> ''Directory '' @ quoted [] @ '' is not in allowed directories.''"
    by (simp add: no_directories_msg_def)
  have 2: "lf_list_files sys [] \<noteq>
     Inr (ListError (''Directory '' @ quoted [] @ '' is not in allowed directories.''))"
    using msg by (auto simp: lf_list_files_def scan_all_def Let_def split: sum.splits)
  have 3: "lf_list_files (sys\<lparr>resolve := other\<rparr>) [] = lf_list_files sys []"
    by (simp add: lf_list_files_def scan_all_def Let_def cong: sum.case_cong if_cong)
  show ?thesis
    using 2 3 list_all_dirs [of sys cfg] by (simp add: list_files_default_def)
qed

theorem list_files_empty_string_witness:
  "lf_list_files (posix mixed_fs) [] =
     Inr (Listing [''data'', ''/nonexistent'']
            (map (scan_directory (posix mixed_fs) mixed_cfg) [''data'', ''/nonexistent'']) 2) \<and>
   is_path_allowed (posix mixed_fs) [] mixed_cfg = Inr False"
proof -
  have dirs: "allowed_directories mixed_cfg = [''data'', ''/nonexistent'']"
    by (simp add: mixed_cfg_def)
  have "lf_list_files (posix mixed_fs) [] =
     Inr (Listing [''data'', ''/nonexistent'']
            (map (scan_directory (posix mixed_fs) mixed_cfg) [''data'', ''/nonexistent'']) 2)"
    using list_files_empty_string [where sys = "posix mixed_fs" and cfg = mixed_cfg,
            THEN conjunct2, THEN conjunct2, THEN conjunct2]
    by (simp add: mixed_load_config dirs)
  moreover have "is_path_allowed (posix mixed_fs) [] mixed_cfg = Inr False"
    by code_simp
  ultimately show ?thesis by simp
qed

section \<open>Configuration\<close>

lemma apply_line_parse:
  "apply_line cfg raw =
     (case parse_line raw of
        None \<Rightarrow> Inr cfg
      | Some kv \<Rightarrow>
          if fst kv = ''ALLOWED_DIRECTORIES'' then
            Inr (cfg\<lparr>allowed_directories := split_list (snd kv)\<rparr>)
          else if fst kv = ''MAX_FILE_SIZE'' then
            (case py_int (snd kv) of
               None \<Rightarrow> Inl (ValueError (snd kv))
             | Some n \<Rightarrow> Inr (cfg\<lparr>max_file_size := n\<rparr>))
          else if fst kv = ''ALLOWED_EXTENSIONS'' then
            Inr (cfg\<lparr>allowed_extensions := split_list (snd kv)\<rparr>)
          else Inr cfg)"
  by (simp add: apply_line_def parse_line_def py_split_once_def Let_def cong: option.case_cong)

lemma file_values_Cons:
  "file_values (l # ls) k =
     (case parse_line l of
        None \<Rightarrow> file_values ls k
      | Some kv \<Rightarrow> if fst kv = k then snd kv # file_values ls k else file_values ls k)"
  by (simp add: file_values_def List.map_filter_simps split: option.splits)

lemma file_values_Nil [simp]: "file_values [] k = []"
  by (simp add: file_values_def List.map_filter_simps)

lemma layered_Cons: "layered d (x # xs) None = layered x xs None"
  by (simp add: layered_def)

lemma layered_Nil [simp]: "layered d [] None = d"
  by (simp add: layered_def)

lemma layered_env: "layered (layered d xs None) [] e = layered d xs e"
  by (simp add: layered_def split: option.splits)

lemma find_append_option:
  "find P (xs @ ys) = (case find P xs of Some x \<Rightarrow> Some x | None \<Rightarrow> find P ys)"
  by (induction xs) simp_all

lemma to_int_Some: "py_int v = Some n \<Longrightarrow> to_int v = n"
  by (simp add: to_int_def)

lemma key_distinct:
  "''ALLOWED_DIRECTORIES'' \<noteq> ''MAX_FILE_SIZE''"
  "''ALLOWED_DIRECTORIES'' \<noteq> ''ALLOWED_EXTENSIONS''"
  "''MAX_FILE_SIZE'' \<noteq> ''ALLOWED_EXTENSIONS''"
  by simp_all

lemma apply_lines_layered:
  "apply_lines cfg ls =
     (case find (\<lambda>v. py_int v = None) (file_values ls ''MAX_FILE_SIZE'') of
        Some bad \<Rightarrow> Inl (ValueError bad)
      | None \<Rightarrow>
          Inr \<lparr>allowed_directories =
                 layered (allowed_directories cfg)
                   (map split_list (file_values ls ''ALLOWED_DIRECTORIES'')) None,
               max_file_size =
                 layered (max_file_size cfg)
                   (map to_int (file_values ls ''MAX_FILE_SIZE'')) None,
               allowed_extensions =
                 layered (allowed_extensions cfg)
                   (map split_list (file_values ls ''ALLOWED_EXTENSIONS'')) None\<rparr>)"
proof (induction ls arbitrary: cfg)
  case Nil
  show ?case by simp
next
  case (Cons l ls)
  show ?case
  proof (cases "parse_line l")
    case None
    then show ?thesis
      by (simp add: apply_line_parse file_values_Cons Cons cong: option.case_cong)
  next
    case (Some kv)
    consider (dirs) "fst kv = ''ALLOWED_DIRECTORIES''"
      | (size) "fst kv = ''MAX_FILE_SIZE''"
      | (exts) "fst kv = ''ALLOWED_EXTENSIONS''"
      | (other) "fst kv \<noteq> ''ALLOWED_DIRECTORIES''" "fst kv \<noteq> ''MAX_FILE_SIZE''"
          "fst kv \<noteq> ''ALLOWED_EXTENSIONS''"
      by blast
    then show ?thesis
    proof cases
      case dirs
      with Some show ?thesis
        by (simp add: apply_line_parse file_values_Cons Cons layered_Cons key_distinct
              cong: option.case_cong)
    next
      case size
      show ?thesis
      proof (cases "py_int (snd kv)")
        case None
        with Some size show ?thesis
          by (simp add: apply_line_parse file_values_Cons)
      next
        case (Some n)
        with \<open>parse_line l = Some kv\<close> size show ?thesis
          by (simp add: apply_line_parse file_values_Cons Cons layered_Cons to_int_Some
                cong: option.case_cong)
      qed
    next
      case exts
      with Some show ?thesis
        by (simp add: apply_line_parse file_values_Cons Cons layered_Cons
              cong: option.case_cong)
    next
      case other
      with Some show ?thesis
        by (simp add: apply_line_parse file_values_Cons Cons cong: option.case_cong)
    qed
  qed
qed

lemma truthy_env_nonempty: "truthy (getenv sys k) \<longleftrightarrow> env_nonempty sys k \<noteq> None"
  by (simp add: truthy_def env_nonempty_def split: option.splits)

lemma env_nonempty_the: "env_nonempty sys k = Some v \<Longrightarrow> the (getenv sys k) = v"
  by (simp add: env_nonempty_def split: option.splits if_splits)

lemma env_override_layered:
  "env_override sys cfg =
     (case find (\<lambda>v. py_int v = None)
             (case env_nonempty sys ''MAX_FILE_SIZE'' of None \<Rightarrow> [] | Some v \<Rightarrow> [v]) of
        Some bad \<Rightarrow> Inl (ValueError bad)
      | None \<Rightarrow>
          Inr \<lparr>allowed_directories =
                 layered (allowed_directories cfg) []
                   (map_option split_list (env_nonempty sys ''ALLOWED_DIRECTORIES'')),
               max_file_size =
                 layered (max_file_size cfg) []
                   (map_option to_int (env_nonempty sys ''MAX_FILE_SIZE'')),
               allowed_extensions =
                 layered (allowed_extensions cfg) []
                   (map_option split_list (env_nonempty sys ''ALLOWED_EXTENSIONS''))\<rparr>)"
proof -
  have d: "(if truthy (getenv sys ''ALLOWED_DIRECTORIES'')
            then cfg\<lparr>allowed_directories :=
                      split_list (the (getenv sys ''ALLOWED_DIRECTORIES''))\<rparr>
            else cfg) =
           cfg\<lparr>allowed_directories :=
                 layered (allowed_directories cfg) []
                   (map_option split_list (env_nonempty sys ''ALLOWED_DIRECTORIES''))\<rparr>"
    by (cases "env_nonempty sys ''ALLOWED_DIRECTORIES''")
       (simp_all add: truthy_env_nonempty env_nonempty_the layered_def)
  have e: "(if truthy (getenv sys ''ALLOWED_EXTENSIONS'')
            then c\<lparr>allowed_extensions :=
                      split_list (the (getenv sys ''ALLOWED_EXTENSIONS''))\<rparr>
            else c) =
           c\<lparr>allowed_extensions :=
                 layered (allowed_extensions c) []
                   (map_option split_list (env_nonempty sys ''ALLOWED_EXTENSIONS''))\<rparr>"
    for c :: config
    by (cases "env_nonempty sys ''ALLOWED_EXTENSIONS''")
       (simp_all add: truthy_env_nonempty env_nonempty_the layered_def)
  show ?thesis
  proof (cases "env_nonempty sys ''MAX_FILE_SIZE''")
    case None
    then show ?thesis
      unfolding env_override_def Let_def d e
      by (simp add: truthy_env_nonempty)
  next
    case (Some v)
    then show ?thesis
      unfolding env_override_def Let_def d e
      by (cases "py_int v")
         (simp_all add: truthy_env_nonempty env_nonempty_the layered_def to_int_Some)
  qed
qed

lemma layers_compose:
  "(case apply_lines default_config ls of
      Inl e \<Rightarrow> Inl e
    | Inr cfg \<Rightarrow> env_override sys cfg) =
   layered_config (env_nonempty sys) ls"
proof (cases "find (\<lambda>v. py_int v = None) (file_values ls ''MAX_FILE_SIZE'')")
  case None
  then show ?thesis
    by (simp add: apply_lines_layered env_override_layered layered_config_def
          find_append_option layered_env default_config_def
        split: option.splits)
next
  case (Some bad)
  then show ?thesis
    by (simp add: apply_lines_layered layered_config_def find_append_option)
qed

lemma load_config_no_file:
  "stat sys (Path ''.env'') = Missing m \<Longrightarrow>
   load_config sys = layered_config (env_nonempty sys) []"
  using layers_compose [where ls = "[]" and sys = sys]
  by (simp add: load_config_def path_exists_def)

lemma load_config_file:
  "stat sys (Path ''.env'') = Stat st \<Longrightarrow> read_lines sys (Path ''.env'') = Inr ls \<Longrightarrow>
   load_config sys = layered_config (env_nonempty sys) ls"
  using layers_compose [where ls = ls and sys = sys]
  by (simp add: load_config_def path_exists_def)

lemma env_stat_dotenv:
  "stat (posix env_fs) (Path ''.env'') =
     Stat \<lparr>st_type = Regular, st_size = 107, st_mtime = 108\<rparr>"
  by code_simp

lemma env_read_lines: "read_lines (posix env_fs) (Path ''.env'') = Inr env_lines"
  by code_simp

lemma env_load_config: "load_config (posix env_fs) = Inr env_cfg"
  by code_simp

lemma env_getenv_dirs: "getenv (posix env_fs) ''ALLOWED_DIRECTORIES'' = Some []"
  by code_simp

text \<open>
  C7, as the code has it. \<open>load_config\<close> is the layering of the specification: for each of
  the three keys the default, overridden by the last line of the settings file that sets
  the key (blank lines, comments and lines without \<open>=\<close> ignored, surrounding quotes
  stripped, lists split at commas with each entry trimmed and empty entries dropped),
  overridden by the environment variable of that name when it is set to a value that is
  not empty. Without a settings file the file layer is empty; without anything set the
  result is the defaults. A value of \<open>MAX_FILE_SIZE\<close> that is not an integer makes the
  load fail.
\<close>

theorem load_config_layers:
  "(stat sys (Path ''.env'') = Missing m \<longrightarrow>
      load_config sys = layered_config (env_nonempty sys) []) \<and>
   (stat sys (Path ''.env'') = Stat st \<and> read_lines sys (Path ''.env'') = Inr ls \<longrightarrow>
      load_config sys = layered_config (env_nonempty sys) ls) \<and>
   layered_config (\<lambda>k. None) [] = Inr default_config"
proof -
  have "layered_config (\<lambda>k. None) [] = Inr default_config"
    by (simp add: layered_config_def default_config_def layered_def)
  then show ?thesis
    using load_config_no_file [of sys m] load_config_file [of sys st ls] by blast
qed

theorem load_config_layers_witness:
  "load_config (posix env_fs) = layered_config (env_nonempty (posix env_fs)) env_lines \<and>
   load_config (posix env_fs) = Inr env_cfg"
  using load_config_layers
          [where sys = "posix env_fs" and ls = env_lines
             and st = "\<lparr>st_type = Regular, st_size = 107, st_mtime = 108\<rparr>",
           THEN conjunct2, THEN conjunct1]
  by (simp add: env_stat_dotenv env_read_lines env_load_config)

text \<open>
  C7, as the claim states it: every environment variable of the three names that is set
  overrides. On \<open>env_fs\<close> the variable \<open>ALLOWED_DIRECTORIES\<close> is set to the empty string
  and the settings file lists two directories: the claim's layering gives no allowed
  directory, \<open>load_config\<close> keeps the two of the file.
\<close>

theorem load_config_env_counterexample:
  "getenv (posix env_fs) ''ALLOWED_DIRECTORIES'' = Some [] \<and>
   read_lines (posix env_fs) (Path ''.env'') = Inr env_lines \<and>
   layered_config (getenv (posix env_fs)) env_lines =
     Inr \<lparr>allowed_directories = [], max_file_size = 1000, allowed_extensions = [''.csv'']\<rparr> \<and>
   load_config (posix env_fs) =
     Inr \<lparr>allowed_directories = [''/allowed'', ''/allowed2''], max_file_size = 1000,
          allowed_extensions = [''.csv'']\<rparr> \<and>
   load_config (posix env_fs) \<noteq> layered_config (getenv (posix env_fs)) env_lines"
proof -
  have spec: "layered_config (getenv (posix env_fs)) env_lines =
     Inr \<lparr>allowed_directories = [], max_file_size = 1000, allowed_extensions = [''.csv'']\<rparr>"
    by code_simp
  have code: "load_config (posix env_fs) =
     Inr \<lparr>allowed_directories = [''/allowed'', ''/allowed2''], max_file_size = 1000,
          allowed_extensions = [''.csv'']\<rparr>"
    using env_load_config by (simp add: env_cfg_def)
  show ?thesis
    unfolding spec code by (simp add: env_getenv_dirs env_read_lines)
qed

lemma path_exists_getenv [simp]: "path_exists (sys\<lparr>getenv := g\<rparr>) p = path_exists sys p"
  by (simp add: path_exists_def)

lemma env_nonempty_unset:
  "getenv sys k = Some [] \<Longrightarrow>
   env_nonempty (sys\<lparr>getenv := (getenv sys)(k := None)\<rparr>) = env_nonempty sys"
  by (rule ext) (simp add: env_nonempty_def)

lemma load_config_env_nonempty:
  "load_config sys =
     (case path_exists sys (Path ''.env'') of
        Inl e \<Rightarrow> Inl e
      | Inr present \<Rightarrow>
          (case (if present then read_lines sys (Path ''.env'') else Inr []) of
             Inl m \<Rightarrow> Inl (OSError m)
           | Inr ls \<Rightarrow> layered_config (env_nonempty sys) ls))"
proof (cases "path_exists sys (Path ''.env'')")
  case (Inl e)
  then show ?thesis by (simp add: load_config_def)
next
  case (Inr present)
  show ?thesis
  proof (cases present)
    case True
    with Inr show ?thesis
      using layers_compose [where sys = sys]
      by (simp add: load_config_def split: sum.splits)
  next
    case False
    with Inr show ?thesis
      using layers_compose [where ls = "[]" and sys = sys]
      by (simp add: load_config_def)
  qed
qed

text \<open>
  C10. A variable among \<open>ALLOWED_DIRECTORIES\<close>, \<open>MAX_FILE_SIZE\<close>, \<open>ALLOWED_EXTENSIONS\<close> that
  is set to the empty string changes nothing: \<open>load_config\<close> gives what it gives with
  the variable unset, and the override step keeps the field it was given, so that a list
  of directories from the settings file stays in force.
\<close>

theorem empty_env_value_ignored:
  "(k \<in> {''ALLOWED_DIRECTORIES'', ''MAX_FILE_SIZE'', ''ALLOWED_EXTENSIONS''} \<and>
    getenv sys k = Some [] \<longrightarrow>
      load_config sys = load_config (sys\<lparr>getenv := (getenv sys)(k := None)\<rparr>)) \<and>
   (getenv sys ''ALLOWED_DIRECTORIES'' = Some [] \<and> env_override sys cfg = Inr cfg' \<longrightarrow>
      allowed_directories cfg' = allowed_directories cfg) \<and>
   (getenv sys ''MAX_FILE_SIZE'' = Some [] \<longrightarrow>
      (\<exists>cfg''. env_override sys cfg = Inr cfg'' \<and> max_file_size cfg'' = max_file_size cfg)) \<and>
   (getenv sys ''ALLOWED_EXTENSIONS'' = Some [] \<and> env_override sys cfg = Inr cfg' \<longrightarrow>
      allowed_extensions cfg' = allowed_extensions cfg)"
proof -
  have 1: "load_config sys = load_config (sys\<lparr>getenv := (getenv sys)(k := None)\<rparr>)"
    if "getenv sys k = Some []"
    unfolding load_config_env_nonempty [of sys]
      load_config_env_nonempty [of "sys\<lparr>getenv := (getenv sys)(k := None)\<rparr>"]
    using env_nonempty_unset [OF that] by (simp cong: sum.case_cong if_cong)
  have 2: "allowed_directories cfg' = allowed_directories cfg"
    if "getenv sys ''ALLOWED_DIRECTORIES'' = Some []" "env_override sys cfg = Inr cfg'"
    using that
    by (auto simp: env_override_layered env_nonempty_def layered_def
             split: option.splits if_splits)
  have 3: "\<exists>cfg''. env_override sys cfg = Inr cfg'' \<and> max_file_size cfg'' = max_file_size cfg"
    if "getenv sys ''MAX_FILE_SIZE'' = Some []"
    using that
    by (simp add: env_override_layered env_nonempty_def layered_def)
  have 4: "allowed_extensions cfg' = allowed_extensions cfg"
    if "getenv sys ''ALLOWED_EXTENSIONS'' = Some []" "env_override sys cfg = Inr cfg'"
    using that
    by (auto simp: env_override_layered env_nonempty_def layered_def
             split: option.splits if_splits)
  from 1 2 3 4 show ?thesis by blast
qed

theorem empty_env_value_ignored_witness:
  "getenv (posix env_fs) ''ALLOWED_DIRECTORIES'' = Some [] \<and>
   load_config
     (posix env_fs\<lparr>getenv := (getenv (posix env_fs))(''ALLOWED_DIRECTORIES'' := None)\<rparr>) =
     Inr env_cfg \<and>
   allowed_directories env_cfg = [''/allowed'', ''/allowed2'']"
  using empty_env_value_ignored
          [where sys = "posix env_fs" and k = "''ALLOWED_DIRECTORIES''", THEN conjunct1]
  by (simp add: env_getenv_dirs env_load_config env_cfg_def)

section \<open>What the tools return\<close>

lemma collect_entries:
  "collect sys cfg path rels acc = Inr out \<Longrightarrow> e \<in> set out \<Longrightarrow>
   e \<in> set acc \<or>
   (\<exists>rel st. rel \<in> set rels \<and> stat sys (child path rel) = Stat st \<and>
      is_file_allowed sys (child path rel) cfg \<and>
      e = \<lparr>e_name = path_name (child path rel), e_path = path_str (child path rel),
            e_relative_path = path_str (PPath [] rel), e_size = st_size st,
            e_modified = st_mtime st, e_extension = path_suffix (child path rel)\<rparr>)"
proof (induction rels arbitrary: acc)
  case Nil
  then show ?case by simp
next
  case (Cons rel rels)
  show ?case
  proof (cases "stat sys (child path rel)")
    case (Stat st)
    show ?thesis
    proof (cases "st_type st = Regular \<and> is_file_allowed sys (child path rel) cfg")
      case True
      let ?new = "\<lparr>e_name = path_name (child path rel), e_path = path_str (child path rel),
            e_relative_path = path_str (PPath [] rel), e_size = st_size st,
            e_modified = st_mtime st, e_extension = path_suffix (child path rel)\<rparr>"
      from Cons.prems(1) Stat True
      have "collect sys cfg path rels (acc @ [?new]) = Inr out"
        by (simp add: path_is_file_def relative_to_child Let_def)
      from Cons.IH [OF this Cons.prems(2)] Stat True show ?thesis
        by auto
    next
      case False
      with Cons.prems(1) Stat have "collect sys cfg path rels acc = Inr out"
        by (auto simp: path_is_file_def Let_def)
      from Cons.IH [OF this Cons.prems(2)] show ?thesis
        by auto
    qed
  next
    case (Missing m)
    with Cons.prems(1) have "collect sys cfg path rels acc = Inr out"
      by (simp add: path_is_file_def Let_def)
    from Cons.IH [OF this Cons.prems(2)] show ?thesis
      by auto
  next
    case (StatError m)
    with Cons.prems(1) show ?thesis
      by (simp add: path_is_file_def Let_def)
  qed
qed

lemma scan_directory_DirFiles:
  "scan_directory sys cfg d = DirFiles dp es k \<Longrightarrow>
   dp = d \<and> collect sys cfg (Path d) (fst (rglob sys (Path d))) [] = Inr es"
  by (auto simp: scan_directory_def Let_def split: sum.splits if_splits option.splits)

lemma listing_scanned:
  assumes "lf_list_files sys d = Inr (Listing ads infos n)" and "load_config sys = Inr cfg"
    and "DirFiles dp es k \<in> set infos"
  shows "scan_directory sys cfg dp = DirFiles dp es k"
proof -
  from assms(1,2) have "infos = [scan_directory sys cfg d] \<or>
      infos = map (scan_directory sys cfg) (allowed_directories cfg)"
    by (auto simp: lf_list_files_def scan_all_def Let_def split: if_splits sum.splits)
  with assms(3) obtain d' where "scan_directory sys cfg d' = DirFiles dp es k"
    by auto
  with scan_directory_DirFiles [OF this] show ?thesis
    by simp
qed

lemma listing_entry:
  assumes "lf_list_files sys d = Inr (Listing ads infos n)" and "load_config sys = Inr cfg"
    and "DirFiles dp es k \<in> set infos" and "e \<in> set es"
  shows "\<exists>rel st. rel \<in> set (fst (rglob sys (Path dp))) \<and>
            stat sys (child (Path dp) rel) = Stat st \<and>
            is_file_allowed sys (child (Path dp) rel) cfg \<and>
            e = \<lparr>e_name = path_name (child (Path dp) rel),
                  e_path = path_str (child (Path dp) rel),
                  e_relative_path = path_str (PPath [] rel), e_size = st_size st,
                  e_modified = st_mtime st,
                  e_extension = path_suffix (child (Path dp) rel)\<rparr>"
proof -
  from listing_scanned [OF assms(1-3)]
  have scan: "scan_directory sys cfg dp = DirFiles dp es k" .
  from scan_directory_DirFiles [OF scan]
  have "collect sys cfg (Path dp) (fst (rglob sys (Path dp))) [] = Inr es"
    by simp
  from collect_entries [OF this assms(4)] show ?thesis
    by simp
qed

lemma read_file_checked:
  assumes "lf_read_file sys fp = Inr (ReadOk r)" and "load_config sys = Inr cfg"
  shows "is_path_allowed sys fp cfg = Inr True \<and> is_file_allowed sys (Path fp) cfg"
proof -
  from assms have ok: "is_path_allowed sys fp cfg = Inr True"
    by (auto simp: lf_read_file_def split: if_splits sum.splits)
  from assms ok have "read_checked sys cfg (Path fp) = Inr (ReadOk r)"
    by (auto simp: lf_read_file_def split: if_splits sum.splits)
  then have "is_file_allowed sys (Path fp) cfg"
    by (auto simp: read_checked_def split: sum.splits if_splits stat_outcome.splits)
  with ok show ?thesis by simp
qed

lemma read_file_ok:
  assumes "load_config sys = Inr cfg" and "allowed_directories cfg \<noteq> []"
    and "is_path_allowed sys fp cfg = Inr True"
    and "stat sys (Path fp) = Stat st" and "st_type st = Regular"
    and "is_file_allowed sys (Path fp) cfg"
    and "read_bytes sys (Path fp) = Inr bs"
  shows "lf_read_file sys fp =
           Inr (ReadOk
                  \<lparr>r_file_path = path_str (Path fp), r_name = path_name (Path fp),
                   r_size = st_size st, r_modified = st_mtime st,
                   r_extension = path_suffix (Path fp),
                   r_content_type = fst (read_content bs),
                   r_content = snd (read_content bs)\<rparr>)"
  using assms
  by (simp add: lf_read_file_def read_checked_def path_exists_def path_is_file_def)

lemma root_Path: "root (Path s) = [] \<or> root (Path s) = ''/'' \<or> root (Path s) = ''//''"
  by (simp add: Path_def Let_def)

lemma absolute_str: "is_absolute p \<Longrightarrow> root p = ''/'' \<or> root p = ''//'' \<Longrightarrow>
   py_startswith (path_str p) ''/''"
  by (auto simp: is_absolute_def path_str_def py_startswith_def)

lemma demo_scan_allowed:
  "scan_directory (posix demo_fs) demo_cfg ''/allowed'' = DirFiles ''/allowed'' demo_entries 5"
  by code_simp

lemma demo_listing:
  "lf_list_files (posix demo_fs) [] =
     Inr (Listing [''/allowed'']
            [scan_directory (posix demo_fs) demo_cfg ''/allowed''] 1)"
  using list_all_dirs [OF demo_load_config]
  by (simp add: demo_cfg_def)

lemma demo_link_not_allowed:
  "is_path_allowed (posix demo_fs) ''/allowed/link.txt'' demo_cfg = Inr False"
  by code_simp

lemma demo_allowed_allowed:
  "is_path_allowed (posix demo_fs) ''/allowed'' demo_cfg = Inr True"
  by code_simp

lemma demo_notes_path_allowed:
  "is_path_allowed (posix demo_fs) ''/allowed/notes.txt'' demo_cfg = Inr True"
  by code_simp

lemma demo_notes_file_allowed:
  "is_file_allowed (posix demo_fs) (Path ''/allowed/notes.txt'') demo_cfg"
  by code_simp

lemma demo_read_bytes_notes:
  "read_bytes (posix demo_fs) (Path ''/allowed/notes.txt'') = Inr (ascii ''hello'')"
  by code_simp

lemma read_content_hello: "read_content (ascii ''hello'') = (''text'', [104, 101, 108, 108, 111])"
  by (simp add: read_content_def ascii_def)

lemma demo_read_notes:
  "lf_read_file (posix demo_fs) ''/allowed/notes.txt'' =
     Inr (ReadOk
            \<lparr>r_file_path = ''/allowed/notes.txt'', r_name = ''notes.txt'', r_size = 5,
             r_modified = 100, r_extension = ''.txt'', r_content_type = ''text'',
             r_content = [104, 101, 108, 108, 111]\<rparr>)"
proof -
  have names: "path_str (Path ''/allowed/notes.txt'') = ''/allowed/notes.txt'' \<and>
      path_name (Path ''/allowed/notes.txt'') = ''notes.txt'' \<and>
      path_suffix (Path ''/allowed/notes.txt'') = ''.txt''"
    by code_simp
  have dirs: "allowed_directories demo_cfg \<noteq> []"
    by (simp add: demo_cfg_def)
  have reg: "st_type \<lparr>st_type = Regular, st_size = 5, st_mtime = 100\<rparr> = Regular"
    by simp
  from read_file_ok [OF demo_load_config dirs demo_notes_path_allowed demo_stat_notes reg
         demo_notes_file_allowed demo_read_bytes_notes]
  show ?thesis
    by (simp add: names read_content_hello)
qed

text \<open>
  C1. \<open>lf_read_file\<close> asks the path guard about the very path it reads (lemma
  \<open>read_file_checked\<close>). \<open>lf_list_files\<close> does not: it asks the guard about the
  \<open>directory_path\<close> argument only and filters what the walk yields with
  \<open>is_file_allowed\<close> alone. In \<open>demo_fs\<close> the allowed directory \<open>/allowed\<close> holds the
  symbolic link \<open>link.txt\<close> to \<open>/secret.txt\<close>, a file outside it. The listing, of all
  allowed directories or of \<open>/allowed\<close> by name, has an entry for \<open>/allowed/link.txt\<close> with
  the size and the modification time of \<open>/secret.txt\<close>, although \<open>is_path_allowed\<close> is
  false for that path and \<open>lf_read_file\<close> refuses it.
\<close>

theorem listing_symlink_leak:
  "load_config (posix demo_fs) = Inr demo_cfg \<and>
   lf_list_files (posix demo_fs) [] =
     Inr (Listing [''/allowed'']
            [DirFiles ''/allowed''
               [\<lparr>e_name = ''notes.txt'', e_path = ''/allowed/notes.txt'',
                 e_relative_path = ''notes.txt'', e_size = 5, e_modified = 100,
                 e_extension = ''.txt''\<rparr>,
                \<lparr>e_name = ''crlf.txt'', e_path = ''/allowed/crlf.txt'',
                 e_relative_path = ''crlf.txt'', e_size = 4, e_modified = 101,
                 e_extension = ''.txt''\<rparr>,
                \<lparr>e_name = ''blob.txt'', e_path = ''/allowed/blob.txt'',
                 e_relative_path = ''blob.txt'', e_size = 3, e_modified = 102,
                 e_extension = ''.txt''\<rparr>,
                \<lparr>e_name = ''link.txt'', e_path = ''/allowed/link.txt'',
                 e_relative_path = ''link.txt'', e_size = 6, e_modified = 106,
                 e_extension = ''.txt''\<rparr>,
                \<lparr>e_name = ''deep.md'', e_path = ''/allowed/sub/deep.md'',
                 e_relative_path = ''sub/deep.md'', e_size = 3, e_modified = 104,
                 e_extension = ''.md''\<rparr>] 5] 1) \<and>
   lf_list_files (posix demo_fs) ''/allowed'' = lf_list_files (posix demo_fs) [] \<and>
   resolve (posix demo_fs) (Path ''/allowed/link.txt'') = Inr (PPath ''/'' [''secret.txt'']) \<and>
   stat (posix demo_fs) (Path ''/secret.txt'') =
     Stat \<lparr>st_type = Regular, st_size = 6, st_mtime = 106\<rparr> \<and>
   is_path_allowed (posix demo_fs) ''/allowed/link.txt'' demo_cfg = Inr False \<and>
   lf_read_file (posix demo_fs) ''/allowed/link.txt'' =
     Inr (ReadError (''File '' @ quoted ''/allowed/link.txt'' @
                     '' is not in allowed directories.''))"
proof -
  have dirs: "allowed_directories demo_cfg = [''/allowed'']"
    by (simp add: demo_cfg_def)
  have named: "lf_list_files (posix demo_fs) ''/allowed'' = lf_list_files (posix demo_fs) []"
    by (simp add: lf_list_files_def scan_all_def demo_load_config dirs demo_allowed_allowed)
  have secret: "stat (posix demo_fs) (Path ''/secret.txt'') =
      Stat \<lparr>st_type = Regular, st_size = 6, st_mtime = 106\<rparr>"
    by code_simp
  have refused: "lf_read_file (posix demo_fs) ''/allowed/link.txt'' =
      Inr (ReadError (''File '' @ quoted ''/allowed/link.txt'' @
                      '' is not in allowed directories.''))"
    by (simp add: lf_read_file_def demo_load_config dirs demo_link_not_allowed)
  from named secret refused show ?thesis
    by (simp add: demo_load_config demo_listing demo_scan_allowed demo_entries_def
          demo_resolve_link demo_link_not_allowed)
qed

lemma mixed_listing:
  "lf_list_files (posix mixed_fs) [] =
     Inr (Listing [''data'', ''/nonexistent'']
            [DirFiles ''data''
               [\<lparr>e_name = ''a.txt'', e_path = ''data/a.txt'', e_relative_path = ''a.txt'',
                 e_size = 1, e_modified = 107, e_extension = ''.txt''\<rparr>] 1,
             DirError ''/nonexistent'' ''Directory does not exist''] 2)"
proof -
  have dirs: "allowed_directories mixed_cfg = [''data'', ''/nonexistent'']"
    by (simp add: mixed_cfg_def)
  show ?thesis
    using list_all_dirs [OF mixed_load_config]
      scan_missing [OF mixed_stat_nonexistent, of mixed_cfg]
    by (simp add: dirs mixed_scan_data)
qed

text \<open>
  C8, as the claim states it, fails for a directory configured by a relative string:
  the \<open>path\<close> of an entry is the string of the walked path, which starts with the
  directory as configured. In \<open>mixed_fs\<close> the directory \<open>data\<close> is scanned from the
  working directory \<open>/home/u\<close>: the file is listed as \<open>data/a.txt\<close>, which is not
  absolute; its absolute path is \<open>/home/u/data/a.txt\<close>.
\<close>

theorem listing_relative_counterexample:
  "load_config (posix mixed_fs) = Inr mixed_cfg \<and>
   lf_list_files (posix mixed_fs) [] =
     Inr (Listing [''data'', ''/nonexistent'']
            [DirFiles ''data''
               [\<lparr>e_name = ''a.txt'', e_path = ''data/a.txt'', e_relative_path = ''a.txt'',
                 e_size = 1, e_modified = 107, e_extension = ''.txt''\<rparr>] 1,
             DirError ''/nonexistent'' ''Directory does not exist''] 2) \<and>
   \<not> is_absolute (Path ''data/a.txt'') \<and>
   \<not> py_startswith ''data/a.txt'' ''/'' \<and>
   resolve (posix mixed_fs) (Path ''data/a.txt'') =
     Inr (PPath ''/'' [''home'', ''u'', ''data'', ''a.txt''])"
proof -
  have "\<not> is_absolute (Path ''data/a.txt'')"
    by code_simp
  moreover have "\<not> py_startswith ''data/a.txt'' ''/''"
    by code_simp
  moreover have "resolve (posix mixed_fs) (Path ''data/a.txt'') =
      Inr (PPath ''/'' [''home'', ''u'', ''data'', ''a.txt''])"
    by code_simp
  ultimately show ?thesis
    by (simp add: mixed_load_config mixed_listing)
qed

text \<open>
  C8, as the code has it. Every entry of a listing is made from one descendant the walk
  of the scanned directory yielded: its name is the last segment, its path is the string
  of the scanned path extended by the descendant's segments, its relative path is the
  string of those segments, its size and modification time are those of \<open>stat\<close>, its
  extension is the suffix of the name. The path is absolute exactly when the scanned
  directory string is: for an absolute directory it starts with a slash, for a relative
  one it is relative to the working directory.
\<close>

theorem listing_entry_metadata:
  assumes "lf_list_files sys d = Inr (Listing ads infos n)"
    and "DirFiles dp es k \<in> set infos" and "e \<in> set es"
  shows "\<exists>rel st. rel \<in> set (fst (rglob sys (Path dp))) \<and>
           stat sys (child (Path dp) rel) = Stat st \<and>
           e_name e = path_name (child (Path dp) rel) \<and>
           e_path e = path_str (child (Path dp) rel) \<and>
           e_relative_path e = path_str (PPath [] rel) \<and>
           relative_to (child (Path dp) rel) (Path dp) = Some (PPath [] rel) \<and>
           e_size e = st_size st \<and> e_modified e = st_mtime st \<and>
           e_extension e = path_suffix (child (Path dp) rel) \<and>
           is_absolute (child (Path dp) rel) = is_absolute (Path dp) \<and>
           (is_absolute (Path dp) \<longrightarrow> py_startswith (e_path e) ''/'')"
proof -
  from assms(1) obtain cfg where cfg: "load_config sys = Inr cfg"
    by (auto simp: lf_list_files_def split: sum.splits)
  from listing_entry [OF assms(1) cfg assms(2,3)]
  obtain rel st where rel: "rel \<in> set (fst (rglob sys (Path dp)))"
    and st: "stat sys (child (Path dp) rel) = Stat st"
    and e: "e = \<lparr>e_name = path_name (child (Path dp) rel),
                  e_path = path_str (child (Path dp) rel),
                  e_relative_path = path_str (PPath [] rel), e_size = st_size st,
                  e_modified = st_mtime st,
                  e_extension = path_suffix (child (Path dp) rel)\<rparr>"
    by blast
  have abs: "is_absolute (child (Path dp) rel) = is_absolute (Path dp)"
    by (simp add: is_absolute_def child_def)
  have "py_startswith (path_str (child (Path dp) rel)) ''/''" if "is_absolute (Path dp)"
  proof -
    from that have "is_absolute (child (Path dp) rel)"
      using abs by simp
    moreover from that root_Path [of dp]
    have "root (child (Path dp) rel) = ''/'' \<or> root (child (Path dp) rel) = ''//''"
      by (simp add: is_absolute_def child_def)
    ultimately show ?thesis by (rule absolute_str)
  qed
  with rel st e abs show ?thesis
    by (intro exI [of _ rel] exI [of _ st]) (simp add: relative_to_child)
qed

theorem listing_entry_metadata_witness:
  "\<exists>rel st. rel \<in> set (fst (rglob (posix mixed_fs) (Path ''data''))) \<and>
     stat (posix mixed_fs) (child (Path ''data'') rel) = Stat st \<and>
     ''a.txt'' = path_name (child (Path ''data'') rel) \<and>
     ''data/a.txt'' = path_str (child (Path ''data'') rel) \<and>
     ''a.txt'' = path_str (PPath [] rel) \<and>
     1 = st_size st \<and> 107 = st_mtime st \<and>
     ''.txt'' = path_suffix (child (Path ''data'') rel) \<and>
     is_absolute (child (Path ''data'') rel) = is_absolute (Path ''data'')"
proof -
  let ?e = "\<lparr>e_name = ''a.txt'', e_path = ''data/a.txt'', e_relative_path = ''a.txt'',
             e_size = 1, e_modified = 107, e_extension = ''.txt''\<rparr>"
  have "DirFiles ''data'' [?e] 1 \<in>
          set [DirFiles ''data'' [?e] 1,
               DirError ''/nonexistent'' ''Directory does not exist'']"
    by simp
  moreover have "?e \<in> set [?e]"
    by simp
  ultimately obtain rel st where
    "rel \<in> set (fst (rglob (posix mixed_fs) (Path ''data''))) \<and>
     stat (posix mixed_fs) (child (Path ''data'') rel) = Stat st \<and>
     e_name ?e = path_name (child (Path ''data'') rel) \<and>
     e_path ?e = path_str (child (Path ''data'') rel) \<and>
     e_relative_path ?e = path_str (PPath [] rel) \<and>
     relative_to (child (Path ''data'') rel) (Path ''data'') = Some (PPath [] rel) \<and>
     e_size ?e = st_size st \<and> e_modified ?e = st_mtime st \<and>
     e_extension ?e = path_suffix (child (Path ''data'') rel) \<and>
     is_absolute (child (Path ''data'') rel) = is_absolute (Path ''data'')"
    using listing_entry_metadata [OF mixed_listing] by blast
  then show ?thesis by auto
qed

section \<open>Reading: text and base64\<close>

lemma sextet1_bound: "(A::nat) < 256 \<Longrightarrow> A div 4 < 64"
  by simp

lemma sextet2_bound: "(B::nat) < 256 \<Longrightarrow> (A::nat) mod 4 * 16 + B div 16 < 64"
proof -
  assume "B < 256"
  then have "B div 16 < 16" by simp
  moreover have "A mod 4 < 4" by simp
  ultimately show ?thesis by linarith
qed

lemma sextet3_bound: "(C::nat) < 256 \<Longrightarrow> (B::nat) mod 16 * 4 + C div 64 < 64"
proof -
  assume "C < 256"
  then have "C div 64 < 4" by simp
  moreover have "B mod 16 < 16" by simp
  ultimately show ?thesis by linarith
qed

lemma sextet2_pad_bound: "(A::nat) mod 4 * 16 < 64"
proof -
  have "A mod 4 < 4" by simp
  then show ?thesis by linarith
qed

lemma sextet3_pad_bound: "(B::nat) mod 16 * 4 < 64"
proof -
  have "B mod 16 < 16" by simp
  then show ?thesis by linarith
qed

lemma regroup1:
  "(B::nat) < 256 \<Longrightarrow> (A::nat) div 4 * 4 + (A mod 4 * 16 + B div 16) div 16 = A"
  by simp

lemma regroup2:
  "(B::nat) < 256 \<Longrightarrow> (C::nat) < 256 \<Longrightarrow>
   ((A::nat) mod 4 * 16 + B div 16) mod 16 * 16 + (B mod 16 * 4 + C div 64) div 4 = B"
  by simp

lemma regroup3:
  "(C::nat) < 256 \<Longrightarrow> ((B::nat) mod 16 * 4 + C div 64) mod 4 * 64 + C mod 64 = C"
  by simp

lemma regroup1_pad: "(A::nat) div 4 * 4 + (A mod 4 * 16) div 16 = A"
  by simp

lemma regroup2_pad:
  "(B::nat) < 256 \<Longrightarrow>
   ((A::nat) mod 4 * 16 + B div 16) mod 16 * 16 + (B mod 16 * 4) div 4 = B"
  by simp

lemma b64_table:
  "list_all (\<lambda>i. index_of (b64_alphabet ! i) b64_alphabet = Some i \<and>
                  b64_alphabet ! i \<noteq> CHR ''='') [0..<64]"
  by code_simp

lemma b64_index_char: "i < 64 \<Longrightarrow> b64_index (b64_char i) = Some i"
proof -
  assume "i < 64"
  then have "i \<in> set [0..<64]" by simp
  with b64_table have "index_of (b64_alphabet ! i) b64_alphabet = Some i"
    unfolding list_all_iff by blast
  with \<open>i < 64\<close> show ?thesis
    by (simp add: b64_index_def b64_char_def)
qed

lemma b64_char_not_pad: "b64_char i \<noteq> CHR ''=''"
proof -
  have "i mod 64 \<in> set [0..<64]" by simp
  with b64_table show ?thesis
    unfolding list_all_iff b64_char_def by blast
qed

lemma byte_bound: "unat (a :: byte) < 256"
  using unsigned_less [of a, where 'a = nat] by simp

lemma decode_group:
  assumes "b64_index ca = Some x" "b64_index cb = Some y" "b64_index cc = Some z"
    "b64_index cd = Some w" "cc \<noteq> CHR ''=''" "cd \<noteq> CHR ''=''"
  shows "b64decode (ca # cb # cc # cd # r) =
           map_option (\<lambda>bs. of_nat (x * 4 + y div 16) # of_nat (y mod 16 * 16 + z div 4) #
                            of_nat (z mod 4 * 64 + w) # bs) (b64decode r)"
  using assms by simp

lemma decode_pad1:
  assumes "b64_index ca = Some x" "b64_index cb = Some y" "b64_index cc = Some z"
    "cc \<noteq> CHR ''=''"
  shows "b64decode [ca, cb, cc, CHR ''=''] =
           Some [of_nat (x * 4 + y div 16), of_nat (y mod 16 * 16 + z div 4)]"
  using assms by simp

lemma decode_pad2:
  assumes "b64_index ca = Some x" "b64_index cb = Some y"
  shows "b64decode [ca, cb, CHR ''='', CHR ''=''] = Some [of_nat (x * 4 + y div 16)]"
  using assms by simp

lemma b64_roundtrip: "b64decode (b64encode bs) = Some bs"
proof (induction bs rule: b64encode.induct)
  case 1
  show ?case by simp
next
  case (2 a)
  have "b64decode (b64encode [a]) =
          Some [of_nat (unat a div 4 * 4 + (unat a mod 4 * 16) div 16)]"
    unfolding b64encode.simps
    by (rule decode_pad2 [OF b64_index_char [OF sextet1_bound [OF byte_bound]]
               b64_index_char [OF sextet2_pad_bound]])
  also have "unat a div 4 * 4 + (unat a mod 4 * 16) div 16 = unat a"
    by (rule regroup1_pad)
  finally show ?case by simp
next
  case (3 a b)
  have "b64decode (b64encode [a, b]) =
          Some [of_nat (unat a div 4 * 4 + (unat a mod 4 * 16 + unat b div 16) div 16),
                of_nat ((unat a mod 4 * 16 + unat b div 16) mod 16 * 16 +
                        (unat b mod 16 * 4) div 4)]"
    unfolding b64encode.simps
    by (rule decode_pad1 [OF b64_index_char [OF sextet1_bound [OF byte_bound]]
               b64_index_char [OF sextet2_bound [OF byte_bound]]
               b64_index_char [OF sextet3_pad_bound] b64_char_not_pad])
  also have "unat a div 4 * 4 + (unat a mod 4 * 16 + unat b div 16) div 16 = unat a"
    by (rule regroup1 [OF byte_bound])
  also have "(unat a mod 4 * 16 + unat b div 16) mod 16 * 16 + (unat b mod 16 * 4) div 4 =
             unat b"
    by (rule regroup2_pad [OF byte_bound])
  finally show ?case by simp
next
  case (4 a b c r)
  have "b64decode (b64encode (a # b # c # r)) =
          map_option
            (\<lambda>bs. of_nat (unat a div 4 * 4 + (unat a mod 4 * 16 + unat b div 16) div 16) #
                  of_nat ((unat a mod 4 * 16 + unat b div 16) mod 16 * 16 +
                          (unat b mod 16 * 4 + unat c div 64) div 4) #
                  of_nat ((unat b mod 16 * 4 + unat c div 64) mod 4 * 64 + unat c mod 64) #
                  bs)
            (b64decode (b64encode r))"
    unfolding b64encode.simps
    by (rule decode_group [OF b64_index_char [OF sextet1_bound [OF byte_bound]]
               b64_index_char [OF sextet2_bound [OF byte_bound]]
               b64_index_char [OF sextet3_bound [OF byte_bound]] b64_index_char
               b64_char_not_pad b64_char_not_pad]) simp
  also have "unat a div 4 * 4 + (unat a mod 4 * 16 + unat b div 16) div 16 = unat a"
    by (rule regroup1 [OF byte_bound])
  also have "(unat a mod 4 * 16 + unat b div 16) mod 16 * 16 +
             (unat b mod 16 * 4 + unat c div 64) div 4 = unat b"
    by (rule regroup2 [OF byte_bound byte_bound])
  also have "(unat b mod 16 * 4 + unat c div 64) mod 4 * 64 + unat c mod 64 = unat c"
    by (rule regroup3 [OF byte_bound])
  finally show ?case
    using "4.IH" by simp
qed

lemma b64decode_str_encode: "b64decode_str (ascii_decode (b64encode bs)) = Some bs"
  by (simp add: b64decode_str_def ascii_decode_def b64_roundtrip comp_def)

lemma universal_newlines_no_cr: "13 \<notin> set cps \<Longrightarrow> universal_newlines cps = cps"
  by (induction cps rule: universal_newlines.induct) auto

lemma demo_crlf_facts:
  "is_path_allowed (posix demo_fs) ''/allowed/crlf.txt'' demo_cfg = Inr True \<and>
   stat (posix demo_fs) (Path ''/allowed/crlf.txt'') =
     Stat \<lparr>st_type = Regular, st_size = 4, st_mtime = 101\<rparr> \<and>
   is_file_allowed (posix demo_fs) (Path ''/allowed/crlf.txt'') demo_cfg \<and>
   read_bytes (posix demo_fs) (Path ''/allowed/crlf.txt'') = Inr [97, 13, 10, 98] \<and>
   path_str (Path ''/allowed/crlf.txt'') = ''/allowed/crlf.txt'' \<and>
   path_name (Path ''/allowed/crlf.txt'') = ''crlf.txt'' \<and>
   path_suffix (Path ''/allowed/crlf.txt'') = ''.txt''"
  by code_simp

lemma demo_blob_facts:
  "is_path_allowed (posix demo_fs) ''/allowed/blob.txt'' demo_cfg = Inr True \<and>
   stat (posix demo_fs) (Path ''/allowed/blob.txt'') =
     Stat \<lparr>st_type = Regular, st_size = 3, st_mtime = 102\<rparr> \<and>
   is_file_allowed (posix demo_fs) (Path ''/allowed/blob.txt'') demo_cfg \<and>
   read_bytes (posix demo_fs) (Path ''/allowed/blob.txt'') = Inr [255, 0, 97] \<and>
   path_str (Path ''/allowed/blob.txt'') = ''/allowed/blob.txt'' \<and>
   path_name (Path ''/allowed/blob.txt'') = ''blob.txt'' \<and>
   path_suffix (Path ''/allowed/blob.txt'') = ''.txt''"
  by code_simp

lemma utf8_crlf: "utf8_decode [97, 13, 10, 98] = Some [97, 13, 10, 98]"
  by simp

lemma utf8_blob: "utf8_decode [255, 0, 97] = None"
  by simp

lemma utf8_hello: "utf8_decode (ascii ''hello'') = Some [104, 101, 108, 108, 111]"
  by (simp add: ascii_def)

text \<open>
  C5, as the claim states it, fails for a text file with a carriage return: the file is
  opened in text mode with the default newline handling, so CR LF is read as LF. In
  \<open>demo_fs\<close> the file \<open>/allowed/crlf.txt\<close> holds the four bytes \<open>a\<close>, CR, LF, \<open>b\<close>, valid
  UTF-8 for four characters; the content returned has three.
\<close>

theorem read_file_newline_counterexample:
  "read_bytes (posix demo_fs) (Path ''/allowed/crlf.txt'') = Inr [97, 13, 10, 98] \<and>
   utf8_decode [97, 13, 10, 98] = Some [97, 13, 10, 98] \<and>
   lf_read_file (posix demo_fs) ''/allowed/crlf.txt'' =
     Inr (ReadOk
            \<lparr>r_file_path = ''/allowed/crlf.txt'', r_name = ''crlf.txt'', r_size = 4,
             r_modified = 101, r_extension = ''.txt'', r_content_type = ''text'',
             r_content = [97, 10, 98]\<rparr>)"
proof -
  have dirs: "allowed_directories demo_cfg \<noteq> []"
    by (simp add: demo_cfg_def)
  have reg: "st_type \<lparr>st_type = Regular, st_size = 4, st_mtime = 101\<rparr> = Regular"
    by simp
  have content: "read_content [97, 13, 10, 98] = (''text'', [97, 10, 98])"
    by (simp add: read_content_def)
  from demo_crlf_facts
    read_file_ok [OF demo_load_config dirs _ _ reg,
      where fp = "''/allowed/crlf.txt''" and bs = "[97, 13, 10, 98]"]
  show ?thesis
    by (simp add: content)
qed

text \<open>
  C5, as the code has it. For a file that is allowed, exists, is regular, passes the
  policy and can be read, \<open>lf_read_file\<close> succeeds. If the bytes are valid UTF-8 the
  content type is \<open>text\<close> and the content is the decoded text with CR LF and CR read as
  LF, so the decoded text itself when it has no carriage return. If they are not, the
  content type is \<open>binary_base64\<close> and decoding the content gives the bytes of the file.
\<close>

theorem read_file_content:
  assumes "load_config sys = Inr cfg" and "allowed_directories cfg \<noteq> []"
    and "is_path_allowed sys fp cfg = Inr True"
    and "stat sys (Path fp) = Stat st" and "st_type st = Regular"
    and "is_file_allowed sys (Path fp) cfg"
    and "read_bytes sys (Path fp) = Inr bs"
  shows "\<exists>r. lf_read_file sys fp = Inr (ReadOk r) \<and>
           (\<forall>cps. utf8_decode bs = Some cps \<longrightarrow>
              r_content_type r = ''text'' \<and> r_content r = universal_newlines cps \<and>
              (13 \<notin> set cps \<longrightarrow> r_content r = cps)) \<and>
           (utf8_decode bs = None \<longrightarrow>
              r_content_type r = ''binary_base64'' \<and> b64decode_str (r_content r) = Some bs)"
proof -
  let ?r = "\<lparr>r_file_path = path_str (Path fp), r_name = path_name (Path fp),
             r_size = st_size st, r_modified = st_mtime st,
             r_extension = path_suffix (Path fp),
             r_content_type = fst (read_content bs),
             r_content = snd (read_content bs)\<rparr>"
  have A: "lf_read_file sys fp = Inr (ReadOk ?r)"
    using assms by (rule read_file_ok)
  have B: "\<forall>cps. utf8_decode bs = Some cps \<longrightarrow>
      r_content_type ?r = ''text'' \<and> r_content ?r = universal_newlines cps \<and>
      (13 \<notin> set cps \<longrightarrow> r_content ?r = cps)"
    by (simp add: read_content_def universal_newlines_no_cr)
  have C: "utf8_decode bs = None \<longrightarrow>
      r_content_type ?r = ''binary_base64'' \<and> b64decode_str (r_content ?r) = Some bs"
    by (simp add: read_content_def b64decode_str_encode)
  from A B C show ?thesis
    by (intro exI [of _ ?r] conjI)
qed

theorem read_file_content_witness:
  "(\<exists>r. lf_read_file (posix demo_fs) ''/allowed/notes.txt'' = Inr (ReadOk r) \<and>
        r_content_type r = ''text'' \<and> r_content r = [104, 101, 108, 108, 111]) \<and>
   (\<exists>r. lf_read_file (posix demo_fs) ''/allowed/crlf.txt'' = Inr (ReadOk r) \<and>
        r_content_type r = ''text'' \<and> r_content r = [97, 10, 98]) \<and>
   (\<exists>r. lf_read_file (posix demo_fs) ''/allowed/blob.txt'' = Inr (ReadOk r) \<and>
        r_content_type r = ''binary_base64'' \<and> r_content r = ascii_decode ''/wBh'' \<and>
        b64decode_str (r_content r) = Some [255, 0, 97])"
proof -
  have dirs: "allowed_directories demo_cfg \<noteq> []"
    by (simp add: demo_cfg_def)
  have reg: "st_type \<lparr>st_type = Regular, st_size = n, st_mtime = t\<rparr> = Regular" for n t
    by simp
  from read_file_content
         [OF demo_load_config dirs demo_notes_path_allowed demo_stat_notes reg
             demo_notes_file_allowed demo_read_bytes_notes]
  have 1: "\<exists>r. lf_read_file (posix demo_fs) ''/allowed/notes.txt'' = Inr (ReadOk r) \<and>
        r_content_type r = ''text'' \<and> r_content r = [104, 101, 108, 108, 111]"
    by (auto simp: utf8_hello)
  from demo_crlf_facts
  have "\<exists>r. lf_read_file (posix demo_fs) ''/allowed/crlf.txt'' = Inr (ReadOk r) \<and>
           (\<forall>cps. utf8_decode [97, 13, 10, 98] = Some cps \<longrightarrow>
              r_content_type r = ''text'' \<and> r_content r = universal_newlines cps \<and>
              (13 \<notin> set cps \<longrightarrow> r_content r = cps)) \<and>
           (utf8_decode [97, 13, 10, 98] = None \<longrightarrow>
              r_content_type r = ''binary_base64'' \<and>
              b64decode_str (r_content r) = Some [97, 13, 10, 98])"
    by (intro read_file_content [OF demo_load_config dirs _ _ reg]) simp_all
  then have 2: "\<exists>r. lf_read_file (posix demo_fs) ''/allowed/crlf.txt'' = Inr (ReadOk r) \<and>
        r_content_type r = ''text'' \<and> r_content r = [97, 10, 98]"
    by (auto simp: utf8_crlf)
  have enc: "read_content [255, 0, 97] = (''binary_base64'', ascii_decode ''/wBh'')"
    by (simp add: read_content_def b64_char_def b64_alphabet_def)
  from demo_blob_facts
  have "\<exists>r. lf_read_file (posix demo_fs) ''/allowed/blob.txt'' = Inr (ReadOk r) \<and>
           (\<forall>cps. utf8_decode [255, 0, 97] = Some cps \<longrightarrow>
              r_content_type r = ''text'' \<and> r_content r = universal_newlines cps \<and>
              (13 \<notin> set cps \<longrightarrow> r_content r = cps)) \<and>
           (utf8_decode [255, 0, 97] = None \<longrightarrow>
              r_content_type r = ''binary_base64'' \<and>
              b64decode_str (r_content r) = Some [255, 0, 97])"
    by (intro read_file_content [OF demo_load_config dirs _ _ reg]) simp_all
  moreover from demo_blob_facts
  have "lf_read_file (posix demo_fs) ''/allowed/blob.txt'' =
      Inr (ReadOk
             \<lparr>r_file_path = ''/allowed/blob.txt'', r_name = ''blob.txt'', r_size = 3,
              r_modified = 102, r_extension = ''.txt'', r_content_type = ''binary_base64'',
              r_content = ascii_decode ''/wBh''\<rparr>)"
    using read_file_ok [OF demo_load_config dirs _ _ reg,
            where fp = "''/allowed/blob.txt''" and bs = "[255, 0, 97]"]
    by (simp add: enc)
  ultimately
  have 3: "\<exists>r. lf_read_file (posix demo_fs) ''/allowed/blob.txt'' = Inr (ReadOk r) \<and>
        r_content_type r = ''binary_base64'' \<and> r_content r = ascii_decode ''/wBh'' \<and>
        b64decode_str (r_content r) = Some [255, 0, 97]"
    by (auto simp: utf8_blob)
  from 1 2 3 show ?thesis by blast
qed

end
